(* ===== verification/Snake_Prelude.thy ===== *)
theory Snake_Prelude
  imports Main "HOL-Library.Word"
begin

text \<open>
  Shared vocabulary of the snake development: the grid constants of
  \<^verbatim>\<open>src/src/lib.rs\<close> (lines 27--30), the coordinate type \<open>u16\<close> as a 16-bit
  word (Rust's \<^verbatim>\<open>u16\<close>, so that \<^verbatim>\<open>wrapping_add\<close> and \<^verbatim>\<open>wrapping_sub\<close> wrap),
  Rust's \<^verbatim>\<open>slice::rotate_right(1)\<close> on lists, the grid-membership test, and the
  generic lemmas on these that the component theories share.  The collection
  \<open>grid_simps\<close> evaluates the constants; \<open>u16_simps\<close> reads small coordinate
  arithmetic through \<open>unat\<close>.
\<close>

named_theorems grid_simps "evaluation of the grid constants"
named_theorems u16_simps "unat of small coordinate arithmetic"

type_synonym u16 = "16 word"
type_synonym pos = "u16 \<times> u16"

definition ROWS :: nat where
  "ROWS = 25"

definition COLS :: nat where
  "COLS = 80"

definition BLOCK_SIZE :: nat where
  "BLOCK_SIZE = 2"

definition MAX_SNAKE_LENGTH :: nat where
  "MAX_SNAKE_LENGTH = ROWS * COLS div (BLOCK_SIZE * BLOCK_SIZE)"

text \<open>\<^verbatim>\<open>rotate_right(1)\<close> on a slice: the last element moves to the front.\<close>

definition rotate_right1 :: "'a list \<Rightarrow> 'a list" where
  "rotate_right1 xs = (if xs = [] then [] else last xs # butlast xs)"

text \<open>A cell lies on the grid when both coordinates are below the extents, compared
  at width 16 as the code compares them (\<^verbatim>\<open>ROWS as u16\<close>, \<^verbatim>\<open>COLS as u16\<close>).\<close>

definition in_grid :: "pos \<Rightarrow> bool" where
  "in_grid p \<longleftrightarrow> fst p < of_nat ROWS \<and> snd p < of_nat COLS"

text \<open>A cell the moving head can occupy: on the grid, both coordinates even.\<close>

definition even_cell :: "pos \<Rightarrow> bool" where
  "even_cell p \<longleftrightarrow> in_grid p \<and> even (unat (fst p)) \<and> even (unat (snd p))"

declare ROWS_def [grid_simps] COLS_def [grid_simps] BLOCK_SIZE_def [grid_simps]

lemma MAX_SNAKE_LENGTH_500 [grid_simps]: "MAX_SNAKE_LENGTH = 500"
  by (simp add: MAX_SNAKE_LENGTH_def grid_simps)

lemma in_grid_unat: "in_grid p \<longleftrightarrow> unat (fst p) < 25 \<and> unat (snd p) < 80"
  by (simp add: in_grid_def grid_simps word_less_nat_alt)

lemma unat_add_small [u16_simps]:
  "unat (x::u16) + unat (y::u16) < 65536 \<Longrightarrow> unat (x + y) = unat x + unat y"
  by (simp add: unat_word_ariths)

lemma unat_sub_small [u16_simps]:
  "unat (y::u16) \<le> unat x \<Longrightarrow> unat (x - y) = unat x - unat y"
  by (simp add: unat_sub word_le_nat_alt)

lemma unat_sub_wraps [u16_simps]:
  "unat (x::u16) < unat y \<Longrightarrow> unat (x - y) = 65536 + unat x - unat y"
  by (simp add: unat_sub_if_size word_size)

lemma length_rotate_right1 [simp]: "length (rotate_right1 xs) = length xs"
  by (simp add: rotate_right1_def)

lemma set_rotate_right1 [simp]: "set (rotate_right1 xs) = set xs"
proof (cases xs rule: rev_cases)
  case Nil
  then show ?thesis by (simp add: rotate_right1_def)
next
  case (snoc ys y)
  then show ?thesis by (auto simp: rotate_right1_def)
qed

text \<open>Rotating back to the left undoes the rotation (\<open>rotate1\<close> is the library's
  left rotation).\<close>

lemma rotate1_rotate_right1: "rotate1 (rotate_right1 xs) = xs"
  by (cases xs rule: rev_cases) (simp_all add: rotate_right1_def)

text \<open>What \<^verbatim>\<open>rotate_right(1)\<close> followed by a write at index 0 does: the old last
  element is overwritten, the rest shifts one slot towards the tail.\<close>

lemma rotate_right1_update0 [simp]:
  "xs \<noteq> [] \<Longrightarrow> (rotate_right1 xs)[0 := h] = h # butlast xs"
  by (simp add: rotate_right1_def)

lemma butlast_replicate: "butlast (replicate n x) = replicate (n - 1) x"
  by (simp add: butlast_conv_take)

lemma set_butlast_subset: "set (butlast xs) \<subseteq> set xs"
  by (induction xs) auto

end
