(* ===== verification/Direction.thy ===== *)
theory Direction
  imports Snake_Prelude
begin

text \<open>
  The \<^verbatim>\<open>Direction\<close> enum of \<^verbatim>\<open>src/src/lib.rs\<close> (lines 37--55) and its
  \<^verbatim>\<open>opposite\<close> method.  The game never calls \<^verbatim>\<open>opposite\<close>: in particular
  \<^verbatim>\<open>update_direction\<close> does not use it to reject a reversal.
\<close>

datatype direction = Up | Down | Left | Right

fun opposite :: "direction \<Rightarrow> direction" where
  "opposite Up = Down"
| "opposite Down = Up"
| "opposite Left = Right"
| "opposite Right = Left"

lemma opposite_opposite [simp]: "opposite (opposite d) = d"
  by (cases d) simp_all

lemma opposite_neq [simp]: "opposite d \<noteq> d"
  by (cases d) simp_all

end
