(* ===== verification/Game_State.thy ===== *)
theory Game_State
  imports Snake_Prelude Direction
begin

text \<open>
  The \<^verbatim>\<open>GameState\<close> struct of \<^verbatim>\<open>src/src/lib.rs\<close> (lines 58--68) and its simple
  methods: the constructor \<^verbatim>\<open>new\<close> (lines 71--82), \<^verbatim>\<open>update_direction\<close>
  (84--86), the occupancy scan \<^verbatim>\<open>is_snake_on_position\<close> (122--129) and the key
  handler \<^verbatim>\<open>key\<close> (173--178).  The fixed-size array
  \<^verbatim>\<open>[(u16, u16); MAX_SNAKE_LENGTH]\<close> is a list whose length the array type fixes;
  \<open>wf_state\<close> records that length.  The struct field \<^verbatim>\<open>length\<close> is \<open>length'\<close>
  (the name \<open>length\<close> is the list library's); \<^verbatim>\<open>usize\<close> counters are \<open>nat\<close>.
\<close>

record game_state =
  snake :: "pos list"
  length' :: nat
  direction :: direction
  food :: pos
  score :: nat

text \<open>\<^verbatim>\<open>pc_keyboard::DecodedKey\<close>, reduced to what \<^verbatim>\<open>key\<close> inspects: the raw key
  code \<^verbatim>\<open>R\<close>, any other raw key, and a Unicode character.\<close>

datatype key_code = KeyR | OtherKey nat

datatype decoded_key = RawKey key_code | Unicode char

definition new :: game_state where
  "new = \<lparr>snake = (replicate MAX_SNAKE_LENGTH (0, 0))[0 := (of_nat ROWS div 2, of_nat COLS div 2)],
          length' = 10, direction = Right, food = (0, 0), score = 0\<rparr>"

definition update_direction :: "game_state \<Rightarrow> direction \<Rightarrow> game_state" where
  "update_direction s d = s\<lparr>direction := d\<rparr>"

text \<open>The \<^verbatim>\<open>for &(row, col) in &self.snake\<close> loop with its early \<^verbatim>\<open>return true\<close>:
  it runs over the whole array, not only the first \<^verbatim>\<open>length\<close> segments.\<close>

fun scan_positions :: "pos list \<Rightarrow> pos \<Rightarrow> bool" where
  "scan_positions [] p = False"
| "scan_positions ((row, col) # rest) p =
     (if row = fst p \<and> col = snd p then True else scan_positions rest p)"

definition is_snake_on_position :: "game_state \<Rightarrow> pos \<Rightarrow> bool" where
  "is_snake_on_position s p = scan_positions (snake s) p"

text \<open>Both arms of the \<^verbatim>\<open>match\<close> in \<^verbatim>\<open>key\<close> are empty: no key changes the state.\<close>

fun key :: "game_state \<Rightarrow> decoded_key \<Rightarrow> game_state" where
  "key s (RawKey KeyR) = s"
| "key s (Unicode c) = (if c = CHR ''r'' then s else s)"
| "key s _ = s"

definition wf_state :: "game_state \<Rightarrow> bool" where
  "wf_state s \<longleftrightarrow> length (snake s) = MAX_SNAKE_LENGTH"

text \<open>The cells the game draws and the self-collision loop reads: the first
  \<^verbatim>\<open>length\<close> segments.\<close>

definition active_segments :: "game_state \<Rightarrow> pos list" where
  "active_segments s = take (length' s) (snake s)"

lemma scan_positions_iff [simp]: "scan_positions xs p \<longleftrightarrow> p \<in> set xs"
  by (induction xs p rule: scan_positions.induct) auto

lemma is_snake_on_position_iff: "is_snake_on_position s p \<longleftrightarrow> p \<in> set (snake s)"
  by (simp add: is_snake_on_position_def)

lemma new_fields [simp]:
  "length' new = 10" "direction new = Right" "food new = (0, 0)" "score new = 0"
  by (simp_all add: new_def)

lemma snake_new:
  "snake new = (12, 40) # replicate 499 (0, 0)"
proof -
  have "MAX_SNAKE_LENGTH = Suc 499"
    by (simp add: grid_simps)
  then have "replicate MAX_SNAKE_LENGTH (0::u16, 0::u16) = (0, 0) # replicate 499 (0, 0)"
    by (simp only: replicate_Suc \<open>MAX_SNAKE_LENGTH = Suc 499\<close>)
  then show ?thesis
    unfolding new_def by (simp add: ROWS_def COLS_def)
qed

lemma wf_new: "wf_state new"
  by (simp add: wf_state_def snake_new grid_simps)

lemma wf_update_direction: "wf_state s \<Longrightarrow> wf_state (update_direction s d)"
  by (simp add: wf_state_def update_direction_def)

text \<open>No key changes the state: both arms of the \<^verbatim>\<open>match\<close> are empty.\<close>

lemma key_unchanged: "key s k = s"
  by (cases "(s, k)" rule: key.cases) simp_all

text \<open>Claim C30: the occupancy scan reports a cell occupied
  when it is an active segment or any of the stale slots past \<^verbatim>\<open>length\<close>; it
  does not stop at the active length.\<close>

theorem scan_counts_stale_slots:
  "is_snake_on_position s p \<longleftrightarrow>
     p \<in> set (active_segments s) \<or> p \<in> set (drop (length' s) (snake s))"
proof -
  have "set (snake s) = set (take (length' s) (snake s)) \<union> set (drop (length' s) (snake s))"
    by (metis append_take_drop_id set_append)
  then show ?thesis
    by (auto simp: is_snake_on_position_iff active_segments_def)
qed

theorem scan_counts_stale_slots_witness:
  "is_snake_on_position (new\<lparr>length' := 1\<rparr>) (0, 0) \<and> (0, 0) \<notin> set (active_segments (new\<lparr>length' := 1\<rparr>))"
proof -
  have "(0, 0) \<in> set (drop 1 (snake new))" "(0, 0) \<notin> set (active_segments (new\<lparr>length' := 1\<rparr>))"
    by (simp_all add: snake_new active_segments_def)
  then show ?thesis
    using scan_counts_stale_slots [of "new\<lparr>length' := 1\<rparr>" "(0, 0)"] by simp
qed

end
