(* ===== verification/Spawn_Food.thy ===== *)
theory Spawn_Food
  imports Game_State
begin

text \<open>
  \<^verbatim>\<open>spawn_food\<close> of \<^verbatim>\<open>src/src/lib.rs\<close> (lines 137--150): a deterministic probe
  along the diagonal \<open>(r + k mod 25, c + k mod 80)\<close> starting one step after
  the current food, until a cell the occupancy scan reports free.  The
  \<^verbatim>\<open>while\<close> loop has no termination argument of its own, so it is
  \<open>spawn_loop\<close>, a \<^theory_text>\<open>partial_function (option)\<close> in which \<open>None\<close> is
  non-termination.  \<open>probe_search\<close> is the bounded reference search: the
  probe sequence from a cell on the grid repeats after \<open>lcm 25 80 = 400\<close>
  steps, so the loop returns exactly when one of the first 400 probes is free.
  The \<^verbatim>\<open>u16\<close> additions \<^verbatim>\<open>+ 1\<close> are modelled wrapping; they cannot reach
  65535 since every probed coordinate after the first is below the extents,
  and the food the first probe starts from always lies on the grid.
\<close>

definition next_probe :: "pos \<Rightarrow> pos" where
  "next_probe p = ((fst p + 1) mod of_nat ROWS, (snd p + 1) mod of_nat COLS)"

partial_function (option) spawn_loop :: "game_state \<Rightarrow> pos \<Rightarrow> pos option" where
  "spawn_loop s p = (if is_snake_on_position s p then spawn_loop s (next_probe p) else Some p)"

definition spawn_food :: "game_state \<Rightarrow> (game_state \<times> pos) option" where
  "spawn_food s =
     (case spawn_loop s (next_probe (food s)) of
        None \<Rightarrow> None
      | Some p \<Rightarrow> Some (s\<lparr>food := p\<rparr>, p))"

fun probe_search :: "game_state \<Rightarrow> pos \<Rightarrow> nat \<Rightarrow> pos option" where
  "probe_search s p 0 = None"
| "probe_search s p (Suc n) =
     (if is_snake_on_position s p then probe_search s (next_probe p) n else Some p)"

definition probe :: "pos \<Rightarrow> nat \<Rightarrow> pos" where
  "probe p k = (next_probe ^^ k) p"

lemma probe_0 [simp]: "probe p 0 = p"
  by (simp add: probe_def)

lemma probe_Suc: "probe p (Suc k) = probe (next_probe p) k"
  by (simp add: probe_def funpow_Suc_right del: funpow.simps)

lemma probe_Suc': "probe p (Suc k) = next_probe (probe p k)"
  by (simp add: probe_def)

lemma in_grid_next_probe [simp]: "in_grid (next_probe p)"
proof -
  have "unat ((fst p + 1) mod 25) < 25" and "unat ((snd p + 1) mod 80) < 80"
    by (simp_all add: unat_mod)
  then show ?thesis
    by (simp add: in_grid_unat next_probe_def grid_simps)
qed

lemma unat_next_probe:
  assumes "in_grid p"
  shows "unat (fst (next_probe p)) = (unat (fst p) + 1) mod 25"
    and "unat (snd (next_probe p)) = (unat (snd p) + 1) mod 80"
  using assms by (simp_all add: in_grid_unat next_probe_def grid_simps unat_mod u16_simps)

lemma unat_probe:
  assumes "in_grid p"
  shows "unat (fst (probe p k)) = (unat (fst p) + k) mod 25 \<and>
         unat (snd (probe p k)) = (unat (snd p) + k) mod 80"
proof (induction k)
  case 0
  from assms show ?case by (simp add: in_grid_unat)
next
  case (Suc k)
  have g: "in_grid (probe p k)"
    using assms by (cases k) (simp_all add: probe_Suc')
  show ?case
    using Suc unat_next_probe [OF g] by (simp add: probe_Suc' mod_Suc_eq)
qed

lemma pos_unat_eqI: "unat (fst p) = unat (fst q) \<Longrightarrow> unat (snd p) = unat (snd q) \<Longrightarrow> p = q"
  by (simp add: prod_eq_iff word_unat_eq_iff)

lemma mod_400_cancel:
  assumes "m dvd (400::nat)"
  shows "(a + k) mod m = (a + k mod 400) mod m"
proof -
  have "k mod 400 mod m = k mod m"
    using assms by (rule mod_mod_cancel)
  then show ?thesis
    by (metis mod_add_right_eq)
qed

lemma probe_mod_400: "in_grid p \<Longrightarrow> probe p k = probe p (k mod 400)"
proof (rule pos_unat_eqI)
  assume g: "in_grid p"
  have r: "(unat (fst p) + k) mod 25 = (unat (fst p) + k mod 400) mod 25"
    by (rule mod_400_cancel) simp
  have c: "(unat (snd p) + k) mod 80 = (unat (snd p) + k mod 400) mod 80"
    by (rule mod_400_cancel) simp
  show "unat (fst (probe p k)) = unat (fst (probe p (k mod 400)))"
    using unat_probe [OF g, of k] unat_probe [OF g, of "k mod 400"] r by simp
  show "unat (snd (probe p k)) = unat (snd (probe p (k mod 400)))"
    using unat_probe [OF g, of k] unat_probe [OF g, of "k mod 400"] c by simp
qed

lemma probe_search_None_iff:
  "probe_search s p n = None \<longleftrightarrow> (\<forall>k<n. probe p k \<in> set (snake s))"
proof (induction n arbitrary: p)
  case 0
  show ?case by simp
next
  case (Suc n)
  show ?case
    by (simp add: Suc.IH is_snake_on_position_iff probe_Suc All_less_Suc2)
qed

lemma probe_search_Some:
  "probe_search s p n = Some q \<Longrightarrow>
     \<exists>k<n. q = probe p k \<and> q \<notin> set (snake s) \<and> (\<forall>j<k. probe p j \<in> set (snake s))"
proof (induction n arbitrary: p)
  case 0
  then show ?case by simp
next
  case (Suc n)
  show ?case
  proof (cases "p \<in> set (snake s)")
    case True
    with Suc.prems have "probe_search s (next_probe p) n = Some q"
      by (simp add: is_snake_on_position_iff)
    then obtain k where "k < n" "q = probe (next_probe p) k" "q \<notin> set (snake s)"
        "\<forall>j<k. probe (next_probe p) j \<in> set (snake s)"
      using Suc.IH by blast
    with True show ?thesis
      by (intro exI [of _ "Suc k"]) (simp add: probe_Suc All_less_Suc2)
  next
    case False
    with Suc.prems show ?thesis
      by (intro exI [of _ 0]) (simp add: is_snake_on_position_iff)
  qed
qed

lemma probe_search_spawn_loop:
  "probe_search s p n = Some q \<Longrightarrow> spawn_loop s p = Some q"
proof (induction n arbitrary: p)
  case 0
  then show ?case by simp
next
  case (Suc n)
  then show ?case
    by (subst spawn_loop.simps) (simp split: if_splits)
qed

lemma spawn_loop_probe_search:
  assumes ret: "spawn_loop s p = Some q"
  shows "\<exists>n. probe_search s p n = Some q"
proof (rule spawn_loop.raw_induct [where P = "\<lambda>s p q. \<exists>n. probe_search s p n = Some q", OF _ ret])
  fix f s p q
  assume IH: "\<And>s p q. f s p = Some q \<Longrightarrow> \<exists>n. probe_search s p n = Some q"
    and eq: "(if is_snake_on_position s p then f s (next_probe p) else Some p) = Some q"
  show "\<exists>n. probe_search s p n = Some q"
  proof (cases "is_snake_on_position s p")
    case True
    with eq have "f s (next_probe p) = Some q"
      by simp
    then obtain n where "probe_search s (next_probe p) n = Some q"
      using IH by blast
    with True have "probe_search s p (Suc n) = Some q"
      by simp
    then show ?thesis ..
  next
    case False
    with eq have "probe_search s p 1 = Some q"
      by simp
    then show ?thesis ..
  qed
qed

lemma spawn_loop_eq_probe_search:
  assumes g: "in_grid p"
  shows "spawn_loop s p = probe_search s p 400"
proof (cases "probe_search s p 400")
  case None
  show ?thesis
  proof (rule ccontr)
    assume "spawn_loop s p \<noteq> probe_search s p 400"
    with None obtain q where "spawn_loop s p = Some q"
      by auto
    then obtain n where "probe_search s p n = Some q"
      using spawn_loop_probe_search by blast
    then obtain k where k: "q = probe p k" "q \<notin> set (snake s)"
      using probe_search_Some by blast
    with probe_mod_400 [OF g, of k] have "probe p (k mod 400) \<notin> set (snake s)"
      by simp
    with None show False
      by (simp add: probe_search_None_iff)
  qed
next
  case (Some q)
  then show ?thesis
    by (simp add: probe_search_spawn_loop)
qed

lemma spawn_food_probe_search:
  "spawn_food s =
     map_option (\<lambda>p. (s\<lparr>food := p\<rparr>, p)) (probe_search s (next_probe (food s)) 400)"
  by (simp add: spawn_food_def spawn_loop_eq_probe_search split: option.split)

lemma spawn_food_Some:
  assumes "spawn_food s = Some (s', q)"
  shows "s' = s\<lparr>food := q\<rparr> \<and> q \<notin> set (snake s) \<and> in_grid q"
proof -
  obtain q' where q': "probe_search s (next_probe (food s)) 400 = Some q'"
      and eq: "s' = s\<lparr>food := q'\<rparr>" "q = q'"
    using assms by (auto simp: spawn_food_probe_search)
  from probe_search_Some [OF q'] obtain k where
    "q' = probe (next_probe (food s)) k" "q' \<notin> set (snake s)"
    by blast
  moreover have "in_grid (probe (next_probe (food s)) k)"
    by (cases k) (simp_all add: probe_Suc')
  ultimately show ?thesis
    using eq by simp
qed

lemma next_probe_origin: "next_probe (0, 0) = (1, 1)"
  by (simp add: next_probe_def grid_simps)

lemma spawn_food_new: "spawn_food new = Some (new\<lparr>food := (1, 1)\<rparr>, (1, 1))"
proof -
  have "spawn_loop new (1, 1) = Some (1, 1)"
    by (subst spawn_loop.simps) (simp add: is_snake_on_position_iff snake_new)
  then show ?thesis
    by (simp add: spawn_food_def next_probe_origin)
qed

lemma free_within_two_probes:
  assumes even: "\<forall>c\<in>set (snake s). even (unat (snd c))"
  shows "probe_search s (next_probe p) 2 \<noteq> None"
proof -
  let ?p0 = "next_probe p"
  have g: "in_grid ?p0" by simp
  have "\<exists>k<2. probe ?p0 k \<notin> set (snake s)"
  proof (cases "even (unat (snd ?p0))")
    case True
    have "unat (snd ?p0) < 80"
      using g by (simp add: in_grid_unat)
    with True have "unat (snd ?p0) + 1 < 80"
      by presburger
    with True have "odd (unat (snd (probe ?p0 1)))"
      using unat_probe [OF g, of 1] by simp
    with even have "probe ?p0 1 \<notin> set (snake s)"
      by blast
    then show ?thesis
      by (intro exI [of _ 1]) simp
  next
    case False
    with even have "probe ?p0 0 \<notin> set (snake s)"
      by auto
    then show ?thesis
      by (intro exI [of _ 0]) simp
  qed
  then show ?thesis
    by (simp add: probe_search_None_iff del: probe_search.simps)
qed

lemma spawn_food_returns:
  assumes "\<forall>c\<in>set (snake s). even (unat (snd c))"
  shows "\<exists>q. spawn_food s = Some (s\<lparr>food := q\<rparr>, q)"
proof -
  obtain q where "probe_search s (next_probe (food s)) 2 = Some q"
    using free_within_two_probes [OF assms] by blast
  then have "spawn_loop s (next_probe (food s)) = Some q"
    by (rule probe_search_spawn_loop)
  then have "spawn_food s = Some (s\<lparr>food := q\<rparr>, q)"
    by (simp add: spawn_food_def)
  then show ?thesis ..
qed

text \<open>Claim C12: when \<^verbatim>\<open>spawn_food\<close> returns, it has stored the cell
  it returns as the food, that cell lies on the grid and the occupancy scan
  reports it free; nothing else of the state changes.\<close>

theorem spawn_food_fresh:
  assumes "spawn_food s = Some (s', q)"
  shows "food s' = q \<and> \<not> is_snake_on_position s' (food s') \<and> in_grid (food s') \<and>
         s' = s\<lparr>food := q\<rparr>"
  using spawn_food_Some [OF assms] by (simp add: is_snake_on_position_iff)

theorem spawn_food_fresh_witness:
  "spawn_food new = Some (new\<lparr>food := (1, 1)\<rparr>, (1, 1)) \<and>
   \<not> is_snake_on_position (new\<lparr>food := (1, 1)\<rparr>) (1, 1)"
  using spawn_food_fresh [OF spawn_food_new] spawn_food_new by simp

text \<open>Claim C13: the cell \<^verbatim>\<open>spawn_food\<close> returns and stores is the
  first free one of the diagonal probe sequence that starts one step after the
  old food: it is reported free, and every earlier probe is reported occupied.\<close>

theorem spawn_food_first_free:
  assumes "spawn_food s = Some (s', q)"
  shows "s' = s\<lparr>food := q\<rparr> \<and>
         (\<exists>k<400. q = probe (next_probe (food s)) k \<and> \<not> is_snake_on_position s q \<and>
            (\<forall>j<k. is_snake_on_position s (probe (next_probe (food s)) j)))"
proof -
  have "probe_search s (next_probe (food s)) 400 = Some q"
    using assms by (auto simp: spawn_food_probe_search)
  from probe_search_Some [OF this] spawn_food_Some [OF assms] show ?thesis
    by (auto simp: is_snake_on_position_iff)
qed

theorem spawn_food_first_free_witness:
  "\<exists>k<400. (1, 1) = probe (next_probe (food new)) k \<and> \<not> is_snake_on_position new (1, 1) \<and>
     (\<forall>j<k. is_snake_on_position new (probe (next_probe (food new)) j))"
  using spawn_food_first_free [OF spawn_food_new] by blast

text \<open>Claim C14: if every cell of the snake array has an even
  column (as every cell the head reaches does, since it starts at column 40 and
  moves by \<^verbatim>\<open>BLOCK_SIZE = 2\<close>), the probe loop of \<^verbatim>\<open>spawn_food\<close> returns, and the
  cell it returns is not in the array.\<close>

theorem spawn_food_terminates:
  assumes "\<forall>c\<in>set (snake s). even (unat (snd c))"
  shows "\<exists>q. spawn_food s = Some (s\<lparr>food := q\<rparr>, q) \<and> q \<notin> set (snake s)"
  using spawn_food_returns [OF assms] spawn_food_Some by blast

theorem spawn_food_terminates_witness:
  "\<exists>q. spawn_food new = Some (new\<lparr>food := q\<rparr>, q) \<and> q \<notin> set (snake new)"
proof -
  have h: "\<forall>c\<in>set (snake new). even (unat (snd c))"
    by (simp add: snake_new)
  show ?thesis
    using h spawn_food_terminates [OF h] by blast
qed

text \<open>Claim C27: \<^verbatim>\<open>spawn_food\<close> fails to return exactly when
  all 400 cells of the diagonal probe sequence starting after the current food are
  reported occupied; the probe never visits the rest of the grid.\<close>

theorem spawn_food_diverges_iff:
  "spawn_food s = None \<longleftrightarrow>
     (\<forall>k<400. is_snake_on_position s (probe (next_probe (food s)) k))"
  by (simp add: spawn_food_probe_search probe_search_None_iff is_snake_on_position_iff
           del: probe_search.simps)

theorem spawn_food_diverges_iff_witness:
  "\<exists>k<400. \<not> is_snake_on_position new (probe (next_probe (food new)) k)"
  using spawn_food_diverges_iff [of new] spawn_food_new by auto

end
