(* ===== verification/Update.thy ===== *)
theory Update
  imports Spawn_Food
begin

text \<open>
  \<^verbatim>\<open>GameState::update\<close> of \<^verbatim>\<open>src/src/lib.rs\<close> (lines 88--119), one tick of the
  game, in the three parts the code has: moving the head and shifting the body
  (\<open>advance_head\<close>, lines 90--99), eating the food (\<open>eat_food\<close>, lines 107--111)
  and the self-collision loop (\<open>self_check\<close>, lines 114--118).  Each
  \<^verbatim>\<open>panic!("Game Over!")\<close> is an \<open>Inl\<close> of \<open>game_error\<close>: the wall check of
  line 102 is \<open>WallCollision\<close>, the loop's comparison of line 115 is
  \<open>SelfCollision\<close>, and the array index \<^verbatim>\<open>self.snake[i]\<close> past the 500 slots is
  \<open>IndexOutOfBounds\<close>.  The outer \<open>option\<close> is the probe loop of
  \<^verbatim>\<open>spawn_food\<close>: \<open>None\<close> when it does not return.
\<close>

datatype game_error = WallCollision | SelfCollision | IndexOutOfBounds

text \<open>Lines 92--97: the head moves by \<^verbatim>\<open>BLOCK_SIZE as u16\<close> with
  \<^verbatim>\<open>wrapping_sub\<close> and \<^verbatim>\<open>wrapping_add\<close>.\<close>

fun move_head :: "pos \<Rightarrow> direction \<Rightarrow> pos" where
  "move_head (r, c) Up = (r - of_nat BLOCK_SIZE, c)"
| "move_head (r, c) Down = (r + of_nat BLOCK_SIZE, c)"
| "move_head (r, c) Left = (r, c - of_nat BLOCK_SIZE)"
| "move_head (r, c) Right = (r, c + of_nat BLOCK_SIZE)"

definition advance_head :: "game_state \<Rightarrow> pos \<times> game_state" where
  "advance_head s =
     (let new_head = move_head (hd (snake s)) (direction s)
      in (new_head, s\<lparr>snake := (rotate_right1 (snake s))[0 := new_head]\<rparr>))"

definition eat_food :: "pos \<Rightarrow> game_state \<Rightarrow> game_state option" where
  "eat_food new_head s =
     (if new_head = food s
      then map_option fst (spawn_food (s\<lparr>score := score s + 1, length' := length' s + 1\<rparr>))
      else Some s)"

text \<open>\<^verbatim>\<open>for i in 1..self.length\<close>: Rust checks the index against the array
  before the comparison reads it.\<close>

function self_check :: "pos \<Rightarrow> pos list \<Rightarrow> nat \<Rightarrow> nat \<Rightarrow> game_error + unit" where
  "self_check h arr i len =
     (if i < len then
        (if length arr \<le> i then Inl IndexOutOfBounds
         else if h = arr ! i then Inl SelfCollision
         else self_check h arr (Suc i) len)
      else Inr ())"
  by pat_completeness auto
termination
  by (relation "measure (\<lambda>(h, arr, i, len). len - i)") auto

definition update :: "game_state \<Rightarrow> (game_error + game_state) option" where
  "update s =
     (let (new_head, s1) = advance_head s
      in if of_nat ROWS \<le> fst new_head \<or> of_nat COLS \<le> snd new_head
         then Some (Inl WallCollision)
         else
           (case eat_food new_head s1 of
              None \<Rightarrow> None
            | Some s2 \<Rightarrow>
                Some (case self_check new_head (snake s2) 1 (length' s2) of
                        Inl e \<Rightarrow> Inl e
                      | Inr _ \<Rightarrow> Inr s2)))"

text \<open>The invariant every state the game reaches from its start satisfies: the
  array keeps its 500 slots; every slot holds a cell on the grid with even
  coordinates (the head starts at \<open>(12, 40)\<close> and moves by 2, and the stale
  slots hold \<open>(0, 0)\<close>); the food lies on the grid and in no slot; the active
  length is between 1 and the capacity.\<close>

definition game_inv :: "game_state \<Rightarrow> bool" where
  "game_inv s \<longleftrightarrow>
     wf_state s \<and> (\<forall>c\<in>set (snake s). even_cell c) \<and> in_grid (food s) \<and>
     food s \<notin> set (snake s) \<and> 0 < length' s \<and> length' s \<le> MAX_SNAKE_LENGTH"

declare self_check.simps [simp del]

lemma self_check_eq:
  "self_check h arr i len =
     (if h \<in> set (drop i (take len arr)) then Inl SelfCollision
      else if length arr < len \<and> i < len then Inl IndexOutOfBounds
      else Inr ())"
proof (induction h arr i len rule: self_check.induct)
  case (1 h arr i len)
  show ?case
  proof (cases "i < len \<and> i < length arr")
    case True
    then have d: "drop i (take len arr) = arr ! i # drop (Suc i) (take len arr)"
      using Cons_nth_drop_Suc [of i "take len arr"] by simp
    show ?thesis
      using True "1.IH" by (subst self_check.simps) (auto simp: d)
  next
    case False
    then show ?thesis
      by (subst self_check.simps) auto
  qed
qed

lemma self_check_shifted:
  "self_check h (h # xs) (Suc 0) len =
     (if h \<in> set (take (len - 1) xs) then Inl SelfCollision
      else if Suc (length xs) < len then Inl IndexOutOfBounds
      else Inr ())"
  by (simp add: self_check_eq drop_take)

lemma advance_head_eq:
  "snake s \<noteq> [] \<Longrightarrow>
     advance_head s = (move_head (hd (snake s)) (direction s),
       s\<lparr>snake := move_head (hd (snake s)) (direction s) # butlast (snake s)\<rparr>)"
  by (simp add: advance_head_def Let_def)

lemma eat_food_frame:
  "eat_food h s = Some s' \<Longrightarrow>
     snake s' = snake s \<and> direction s' = direction s"
  by (auto simp: eat_food_def dest!: spawn_food_Some split: if_splits)

lemma eat_food_miss [simp]: "h \<noteq> food s \<Longrightarrow> eat_food h s = Some s"
  by (simp add: eat_food_def)

lemma eat_food_hit:
  "eat_food (food s) s = Some s' \<Longrightarrow>
     \<exists>q. s' = s\<lparr>score := score s + 1, length' := length' s + 1, food := q\<rparr> \<and>
         q \<notin> set (snake s) \<and> in_grid q"
proof -
  assume "eat_food (food s) s = Some s'"
  then obtain q where
    "spawn_food (s\<lparr>score := score s + 1, length' := length' s + 1\<rparr>) = Some (s', q)"
    by (auto simp: eat_food_def)
  from spawn_food_Some [OF this] show ?thesis
    by (intro exI [of _ q]) simp
qed

lemma not_in_grid_iff: "\<not> in_grid p \<longleftrightarrow> of_nat ROWS \<le> fst p \<or> of_nat COLS \<le> snd p"
  by (auto simp: in_grid_def not_less)

lemma update_wall:
  "snake s \<noteq> [] \<Longrightarrow> \<not> in_grid (move_head (hd (snake s)) (direction s)) \<Longrightarrow>
     update s = Some (Inl WallCollision)"
  by (simp add: update_def advance_head_eq not_in_grid_iff)

text \<open>One tick from a state whose head moves onto the grid, with the
  self-collision loop in closed form.\<close>

lemma update_in_grid:
  assumes "snake s \<noteq> []" and "h = move_head (hd (snake s)) (direction s)" and "in_grid h"
  shows "update s =
     map_option (\<lambda>s2. if h \<in> set (take (length' s2 - 1) (butlast (snake s))) then Inl SelfCollision
                      else if length (snake s) < length' s2 then Inl IndexOutOfBounds
                      else Inr s2)
       (eat_food h (s\<lparr>snake := h # butlast (snake s)\<rparr>))"
proof -
  have ng: "\<not> (of_nat ROWS \<le> fst h \<or> of_nat COLS \<le> snd h)"
    using assms(3) not_in_grid_iff by blast
  have upd: "update s =
     (case eat_food h (s\<lparr>snake := h # butlast (snake s)\<rparr>) of
        None \<Rightarrow> None
      | Some s2 \<Rightarrow> Some (case self_check h (snake s2) 1 (length' s2) of
                          Inl e \<Rightarrow> Inl e | Inr _ \<Rightarrow> Inr s2))"
    unfolding update_def advance_head_eq [OF assms(1)] assms(2) [symmetric] Let_def
    using ng by simp
  show ?thesis
  proof (cases "eat_food h (s\<lparr>snake := h # butlast (snake s)\<rparr>)")
    case None
    then show ?thesis by (simp add: upd)
  next
    case (Some s2)
    then have "snake s2 = h # butlast (snake s)"
      using eat_food_frame by fastforce
    moreover have "0 < length (snake s)"
      using assms(1) by simp
    ultimately show ?thesis
      using Some by (auto simp: upd self_check_shifted)
  qed
qed

lemma wf_state_nonempty: "wf_state s \<Longrightarrow> snake s \<noteq> []"
  by (auto simp: wf_state_def grid_simps)

text \<open>A coordinate below 2 moved down by \<^verbatim>\<open>wrapping_sub(2)\<close> wraps past the grid.\<close>

lemma unat_minus_two:
  "unat (x::u16) < 80 \<Longrightarrow> unat (x - 2) = (if 2 \<le> unat x then unat x - 2 else 65534 + unat x)"
  by (simp add: unat_sub_small unat_sub_wraps)

lemma unat_plus_two: "unat (x::u16) < 80 \<Longrightarrow> unat (x + 2) = unat x + 2"
  by (simp add: unat_add_small)

lemma move_head_even:
  assumes ev: "even_cell p" and g: "in_grid (move_head p d)"
  shows "even_cell (move_head p d)"
proof (cases p)
  case (Pair r c)
  have r: "unat r < 25" "even (unat r)" and c: "unat c < 80" "even (unat c)"
    using ev Pair by (simp_all add: even_cell_def in_grid_unat)
  then have rc: "unat r < 80"
    by simp
  show ?thesis
    using g r c unat_minus_two [OF rc] unat_minus_two [OF c(1)] unat_plus_two [OF rc]
      unat_plus_two [OF c(1)] Pair
    by (cases d) (auto simp: even_cell_def in_grid_unat grid_simps split: if_splits)
qed

lemma game_inv_hd:
  assumes "game_inv s"
  shows "snake s \<noteq> [] \<and> even_cell (hd (snake s))"
  using assms wf_state_nonempty [of s] by (simp add: game_inv_def)

text \<open>Every tick that does not end the game keeps the invariant.\<close>

lemma update_game_inv:
  assumes inv: "game_inv s" and upd: "update s = Some (Inr s')"
  shows "game_inv s' \<and> direction s' = direction s"
proof -
  define h where "h = move_head (hd (snake s)) (direction s)"
  have ne: "snake s \<noteq> []" and ev: "even_cell (hd (snake s))"
    using game_inv_hd [OF inv] by simp_all
  have g: "in_grid h"
    using update_wall [OF ne] upd by (auto simp: h_def)
  have eh: "even_cell h"
    using move_head_even [OF ev] g by (simp add: h_def)
  obtain s2 where eat: "eat_food h (s\<lparr>snake := h # butlast (snake s)\<rparr>) = Some s2"
      and res: "(if h \<in> set (take (length' s2 - 1) (butlast (snake s))) then Inl SelfCollision
                 else if length (snake s) < length' s2 then Inl IndexOutOfBounds
                 else Inr s2) = Inr s'"
    using update_in_grid [OF ne h_def g] upd
    by (cases "eat_food h (s\<lparr>snake := h # butlast (snake s)\<rparr>)") auto
  then have s': "s' = s2" and room: "\<not> length (snake s) < length' s2"
    by (auto split: if_splits)
  have body: "snake s2 = h # butlast (snake s)" and dir: "direction s2 = direction s"
    using eat_food_frame [OF eat] by simp_all
  have cells: "\<forall>c\<in>set (snake s2). even_cell c"
    using inv eh set_butlast_subset [of "snake s"] by (auto simp: body game_inv_def)
  have wf: "wf_state s2"
    using inv ne by (simp add: body wf_state_def game_inv_def)
  show ?thesis
  proof (cases "h = food s")
    case True
    then obtain q where s2: "s2 = s\<lparr>snake := h # butlast (snake s), score := score s + 1,
                                     length' := length' s + 1, food := q\<rparr>"
        and q: "q \<notin> set (h # butlast (snake s))" "in_grid q"
      using eat_food_hit [of "s\<lparr>snake := h # butlast (snake s)\<rparr>"] eat by auto
    have "length' s2 \<le> MAX_SNAKE_LENGTH"
      using room inv by (simp add: game_inv_def wf_state_def)
    with s2 q cells wf show ?thesis
      by (simp add: s' game_inv_def body)
  next
    case False
    then have s2: "s2 = s\<lparr>snake := h # butlast (snake s)\<rparr>"
      using eat by simp
    have "food s \<notin> set (butlast (snake s))"
      using inv set_butlast_subset [of "snake s"] by (auto simp: game_inv_def)
    with False s2 cells wf inv show ?thesis
      by (auto simp: s' game_inv_def body)
  qed
qed

text \<open>A tick whose head moves onto the grid and misses the food.\<close>

lemma update_no_eat:
  assumes wf: "wf_state s" and len: "length' s \<le> MAX_SNAKE_LENGTH"
    and h: "h = move_head (hd (snake s)) (direction s)" and g: "in_grid h"
    and miss: "h \<noteq> food s"
  shows "update s =
     Some (if h \<in> set (take (length' s - 1) (snake s)) then Inl SelfCollision
           else Inr (s\<lparr>snake := h # butlast (snake s)\<rparr>))"
proof -
  have ne: "snake s \<noteq> []"
    using wf by (rule wf_state_nonempty)
  have "length' s - Suc 0 < length (snake s)"
    using wf len by (simp add: wf_state_def grid_simps)
  then have tk: "take (length' s - Suc 0) (butlast (snake s)) = take (length' s - Suc 0) (snake s)"
    by (rule take_butlast)
  have "\<not> length (snake s) < length' s"
    using wf len by (simp add: wf_state_def)
  then show ?thesis
    using update_in_grid [OF ne h g] miss by (simp add: tk)
qed

text \<open>A tick whose head moves onto the food: the food is in no slot, so the
  loop finds no collision, and it reads \<^verbatim>\<open>self.snake[500]\<close> exactly when the
  snake was already at capacity.\<close>

lemma update_eat_eq:
  assumes inv: "game_inv s"
    and h: "h = move_head (hd (snake s)) (direction s)" and hit: "h = food s"
  shows "\<exists>q. q \<notin> set (h # butlast (snake s)) \<and> in_grid q \<and>
     update s = Some (if length' s = MAX_SNAKE_LENGTH then Inl IndexOutOfBounds
       else Inr (s\<lparr>snake := h # butlast (snake s), score := score s + 1,
                   length' := length' s + 1, food := q\<rparr>))"
proof -
  have ne: "snake s \<noteq> []" and ev: "even_cell (hd (snake s))"
    using game_inv_hd [OF inv] by simp_all
  have g: "in_grid h"
    using inv hit by (simp add: game_inv_def)
  have eh: "even_cell h"
    using move_head_even [OF ev] g by (simp add: h)
  let ?s1 = "s\<lparr>snake := h # butlast (snake s)\<rparr>"
  have "\<forall>c\<in>set (snake ?s1). even (unat (snd c))"
    using inv eh set_butlast_subset [of "snake s"] by (auto simp: game_inv_def even_cell_def)
  then obtain q where sp: "spawn_food (?s1\<lparr>score := score s + 1, length' := length' s + 1\<rparr>) =
      Some (?s1\<lparr>score := score s + 1, length' := length' s + 1, food := q\<rparr>, q)"
    using spawn_food_returns by fastforce
  have q: "q \<notin> set (h # butlast (snake s)) \<and> in_grid q"
    using spawn_food_Some [OF sp] by simp
  have eat: "eat_food h ?s1 = Some (?s1\<lparr>score := score s + 1, length' := length' s + 1, food := q\<rparr>)"
    using hit sp by (simp add: eat_food_def)
  have notin: "h \<notin> set (take (length' s) (butlast (snake s)))"
    using inv hit set_butlast_subset [of "snake s"] in_set_takeD by (fastforce simp: game_inv_def)
  have len: "length (snake s) = MAX_SNAKE_LENGTH" "length' s \<le> MAX_SNAKE_LENGTH"
    using inv by (simp_all add: game_inv_def wf_state_def)
  show ?thesis
    using update_in_grid [OF ne h g] eat notin len q by (intro exI [of _ q]) auto
qed

lemma update_returns:
  assumes inv: "game_inv s"
  shows "update s \<noteq> None"
proof -
  define h where "h = move_head (hd (snake s)) (direction s)"
  have ne: "snake s \<noteq> []" and wf: "wf_state s" and len: "length' s \<le> MAX_SNAKE_LENGTH"
    using inv game_inv_hd [OF inv] by (simp_all add: game_inv_def)
  show ?thesis
  proof (cases "in_grid h")
    case False
    then show ?thesis using update_wall [OF ne] by (simp add: h_def)
  next
    case True
    then show ?thesis
      using update_no_eat [OF wf len h_def True] update_eat_eq [OF inv h_def]
      by (cases "h = food s") auto
  qed
qed

text \<open>States with one live cell followed by the 499 stale \<open>(0, 0)\<close> slots
  satisfy the invariant whenever the food is elsewhere on the grid; the
  witnesses below are built from them.\<close>

lemma game_inv_single_head:
  assumes "even_cell p" "in_grid f" "f \<noteq> p" "f \<noteq> (0, 0)" "0 < n" "n \<le> 500"
  shows "game_inv (s\<lparr>snake := p # replicate 499 (0, 0), length' := n, food := f\<rparr>)"
  using assms by (simp add: game_inv_def wf_state_def grid_simps even_cell_def in_grid_unat)

lemma even_cell_12_40: "even_cell (12, 40)"
  by (simp add: even_cell_def in_grid_unat)

text \<open>Claim C1: from a state satisfying the invariant,
  a tick always returns (the food probe terminates) and, when the game goes on,
  the new state satisfies the invariant again.\<close>

theorem update_progress_invariant:
  assumes "game_inv s"
  shows "\<exists>r. update s = Some r \<and> (\<forall>s'. r = Inr s' \<longrightarrow> game_inv s')"
  using update_returns [OF assms] update_game_inv [OF assms] by auto

theorem update_progress_invariant_witness:
  "\<exists>s'. update (new\<lparr>snake := (12, 40) # replicate 499 (0, 0), length' := 10, food := (1, 1)\<rparr>) =
          Some (Inr s') \<and> game_inv s'"
proof -
  let ?s = "new\<lparr>snake := (12, 40) # replicate 499 (0::u16, 0::u16), length' := 10, food := (1, 1)\<rparr>"
  have i: "game_inv ?s"
    by (rule game_inv_single_head) (simp_all add: even_cell_12_40 in_grid_unat)
  have "update ?s = Some (Inr (?s\<lparr>snake := (12, 42) # butlast (snake ?s)\<rparr>))"
    using update_no_eat [of ?s "(12, 42)"] by (simp add: wf_state_def grid_simps in_grid_unat)
  then show ?thesis
    using update_progress_invariant [OF i] by auto
qed

text \<open>Claim C7: a tick whose new head lies on the grid, misses the food
  and is none of the first \<open>length - 1\<close> segments writes the new head at
  index 0 and shifts every other slot one place towards the tail; length, score,
  food and direction are unchanged.\<close>

theorem update_move:
  assumes "game_inv s" and "h = move_head (hd (snake s)) (direction s)" and "in_grid h"
    and "h \<noteq> food s" and "h \<notin> set (take (length' s - 1) (snake s))"
  shows "update s = Some (Inr (s\<lparr>snake := h # butlast (snake s)\<rparr>))"
proof -
  have "wf_state s" "length' s \<le> MAX_SNAKE_LENGTH"
    using assms(1) by (simp_all add: game_inv_def)
  then show ?thesis
    using update_no_eat [OF _ _ assms(2-4)] assms(5) by simp
qed

theorem update_move_witness:
  "update (new\<lparr>snake := (12, 40) # replicate 499 (0, 0), length' := 10, food := (1, 1)\<rparr>) =
   Some (Inr (new\<lparr>snake := (12, 42) # butlast ((12, 40) # replicate 499 (0, 0)), length' := 10,
                  food := (1, 1)\<rparr>))"
proof -
  let ?s = "new\<lparr>snake := (12, 40) # replicate 499 (0::u16, 0::u16), length' := 10, food := (1, 1)\<rparr>"
  have i: "game_inv ?s"
    by (rule game_inv_single_head) (simp_all add: even_cell_12_40 in_grid_unat)
  have m: "(12, 42) = move_head (hd (snake ?s)) (direction ?s)"
    by (simp add: new_def grid_simps)
  have g: "in_grid (12, 42)"
    by (simp add: in_grid_unat)
  have "(12, 42) \<notin> set (take (length' ?s - 1) (snake ?s))"
    by simp
  then show ?thesis
    using update_move [OF i m g] by simp
qed

text \<open>Claim C10: a tick ends the game with a wall collision
  exactly when the wrapped head lies off the grid; a coordinate that moves below
  0 wraps to 65534 or 65535 and is caught by the same comparison.\<close>

theorem update_wall_collision:
  assumes "wf_state s"
  shows "update s = Some (Inl WallCollision) \<longleftrightarrow>
         \<not> in_grid (move_head (hd (snake s)) (direction s))"
proof
  have ne: "snake s \<noteq> []"
    using assms by (rule wf_state_nonempty)
  show "\<not> in_grid (move_head (hd (snake s)) (direction s))" if "update s = Some (Inl WallCollision)"
  proof
    assume g: "in_grid (move_head (hd (snake s)) (direction s))"
    show False
      using that update_in_grid [OF ne refl g] by (auto split: if_splits)
  qed
  show "update s = Some (Inl WallCollision)" if "\<not> in_grid (move_head (hd (snake s)) (direction s))"
    using update_wall [OF ne that] .
qed

theorem update_wall_collision_witness:
  "wf_state (new\<lparr>snake := (0, 40) # replicate 499 (0, 0), direction := Up\<rparr>) \<and>
   update (new\<lparr>snake := (0, 40) # replicate 499 (0, 0), direction := Up\<rparr>) = Some (Inl WallCollision)"
proof -
  have wf: "wf_state (new\<lparr>snake := (0, 40) # replicate 499 (0::u16, 0::u16), direction := Up\<rparr>)"
    by (simp add: wf_state_def grid_simps)
  have "\<not> in_grid (move_head (0, 40) Up)"
    by (simp add: in_grid_unat grid_simps)
  then show ?thesis
    using wf update_wall_collision [OF wf] by simp
qed

text \<open>Claim C11: when the new head lies on the grid and
  misses the food, the tick ends the game with a self collision exactly when the
  new head is one of the first \<open>length - 1\<close> segments before the move, which
  are the segments at indices \<open>1 .. length - 1\<close> after it.\<close>

theorem update_self_collision:
  assumes "wf_state s" and "length' s \<le> MAX_SNAKE_LENGTH"
    and "h = move_head (hd (snake s)) (direction s)" and "in_grid h" and "h \<noteq> food s"
  shows "update s = Some (Inl SelfCollision) \<longleftrightarrow> h \<in> set (take (length' s - 1) (snake s))"
  using update_no_eat [OF assms] by simp

theorem update_self_collision_witness:
  "update (new\<lparr>snake := (12, 40) # (12, 42) # (14, 42) # (14, 40) # replicate 496 (0, 0),
                direction := Down, food := (1, 1)\<rparr>) = Some (Inl SelfCollision)"
proof -
  let ?s = "new\<lparr>snake := (12, 40) # (12, 42) # (14, 42) # (14, 40) # replicate 496 (0::u16, 0::u16),
                direction := Down, food := (1, 1)\<rparr>"
  have wf: "wf_state ?s"
    by (simp add: wf_state_def grid_simps)
  have l: "length' ?s \<le> MAX_SNAKE_LENGTH"
    by (simp add: grid_simps)
  have m: "(14, 40) = move_head (hd (snake ?s)) (direction ?s)"
    by (simp add: grid_simps)
  have g: "in_grid (14, 40)"
    by (simp add: in_grid_unat)
  have "(14, 40) \<in> set (take (length' ?s - 1) (snake ?s))"
    by simp
  then show ?thesis
    using update_self_collision [OF wf l m g] by simp
qed

text \<open>Claim C8: when the new head reaches the food and the snake is below
  capacity, the tick returns with the score and the length each one higher, the
  body shifted behind the new head, and new food on the grid in no slot of the
  array.\<close>

theorem update_eat:
  assumes "game_inv s" and "h = move_head (hd (snake s)) (direction s)" and "h = food s"
    and "length' s < MAX_SNAKE_LENGTH"
  shows "\<exists>q. update s = Some (Inr (s\<lparr>snake := h # butlast (snake s), score := score s + 1,
                                     length' := length' s + 1, food := q\<rparr>)) \<and>
             q \<notin> set (h # butlast (snake s)) \<and> in_grid q"
  using update_eat_eq [OF assms(1-3)] assms(4) by auto

theorem update_eat_witness:
  "\<exists>q. update (new\<lparr>snake := (12, 40) # replicate 499 (0, 0), food := (12, 42)\<rparr>) =
        Some (Inr (new\<lparr>snake := (12, 42) # butlast ((12, 40) # replicate 499 (0, 0)), score := 1,
                       length' := 11, food := q\<rparr>)) \<and>
       q \<notin> set ((12, 42) # butlast ((12, 40) # replicate 499 (0, 0))) \<and> in_grid q"
proof -
  let ?s = "new\<lparr>snake := (12, 40) # replicate 499 (0::u16, 0::u16), length' := 10, food := (12, 42)\<rparr>"
  have eq: "new\<lparr>snake := (12, 40) # replicate 499 (0::u16, 0::u16), food := (12, 42)\<rparr> = ?s"
    by (simp add: new_def)
  have i: "game_inv ?s"
    by (rule game_inv_single_head) (simp_all add: even_cell_12_40 in_grid_unat)
  have m: "(12, 42) = move_head (hd (snake ?s)) (direction ?s)"
    by (simp add: grid_simps)
  have f: "(12, 42) = food ?s" and l: "length' ?s < MAX_SNAKE_LENGTH"
    by (simp_all add: grid_simps)
  show ?thesis
    using update_eat [OF i m f l] unfolding eq by simp
qed

text \<open>Claim C23: \<^verbatim>\<open>self.length += 1\<close> has no bound.  Eating
  when the snake already has 500 segments makes the self-collision loop read
  \<^verbatim>\<open>self.snake[500]\<close>, past the end of the array, and the tick panics.\<close>

theorem update_full_capacity:
  assumes "game_inv s" and "h = move_head (hd (snake s)) (direction s)" and "h = food s"
    and "length' s = MAX_SNAKE_LENGTH"
  shows "update s = Some (Inl IndexOutOfBounds)"
  using update_eat_eq [OF assms(1-3)] assms(4) by auto

theorem update_full_capacity_witness:
  "update (new\<lparr>snake := (12, 40) # replicate 499 (0, 0), length' := 500, food := (12, 42)\<rparr>) =
   Some (Inl IndexOutOfBounds)"
proof -
  let ?s = "new\<lparr>snake := (12, 40) # replicate 499 (0::u16, 0::u16), length' := 500, food := (12, 42)\<rparr>"
  have i: "game_inv ?s"
    by (rule game_inv_single_head) (simp_all add: even_cell_12_40 in_grid_unat)
  have m: "(12, 42) = move_head (hd (snake ?s)) (direction ?s)"
    by (simp add: grid_simps)
  have f: "(12, 42) = food ?s" and l: "length' ?s = MAX_SNAKE_LENGTH"
    by (simp_all add: grid_simps)
  show ?thesis
    using update_full_capacity [OF i m f l] .
qed

text \<open>Claim C9: a tick that does not end the game either leaves
  score and length as they were or raises both by exactly one, so the score
  never decreases and counts the food eaten.\<close>

theorem update_score_step:
  assumes "update s = Some (Inr s')"
  shows "(score s' = score s \<and> length' s' = length' s) \<or>
         (score s' = score s + 1 \<and> length' s' = length' s + 1)"
proof -
  obtain h s1 where adv: "advance_head s = (h, s1)"
    by (cases "advance_head s")
  have sc: "score s1 = score s" "length' s1 = length' s"
    using adv by (auto simp: advance_head_def Let_def)
  obtain s2 where eat: "eat_food h s1 = Some s2" and r: "s' = s2"
    using assms adv by (auto simp: update_def split: if_splits option.splits sum.splits)
  show ?thesis
  proof (cases "h = food s1")
    case True
    then show ?thesis
      using eat_food_hit [of s1] eat sc r by auto
  next
    case False
    then show ?thesis
      using eat sc r by simp
  qed
qed

theorem update_score_step_witness:
  "\<exists>s'. update (new\<lparr>snake := (12, 40) # replicate 499 (0, 0), length' := 10, food := (1, 1)\<rparr>) =
          Some (Inr s') \<and> score s' = 0 \<and> length' s' = 10"
proof -
  let ?s = "new\<lparr>snake := (12, 40) # replicate 499 (0::u16, 0::u16), length' := 10, food := (1, 1)\<rparr>"
  have u: "update ?s = Some (Inr (?s\<lparr>snake := (12, 42) # butlast (snake ?s)\<rparr>))"
    using update_no_eat [of ?s "(12, 42)"] by (simp add: wf_state_def grid_simps in_grid_unat)
  have "score (?s\<lparr>snake := (12, 42) # butlast (snake ?s)\<rparr>) = 0 \<and>
        length' (?s\<lparr>snake := (12, 42) # butlast (snake ?s)\<rparr>) = 10"
    using update_score_step [OF u] by (auto simp: new_def)
  with u show ?thesis
    by blast
qed

end
