(* ===== verification/Session.thy ===== *)
theory Session
  imports Update
begin

text \<open>
  The game as a state machine over the public API of \<^verbatim>\<open>GameState\<close>: the
  kernel is created by \<^verbatim>\<open>GameState::new()\<close> followed by one \<^verbatim>\<open>spawn_food()\<close>
  (\<^verbatim>\<open>src/src/main.rs\<close> lines 16--19); after that any sequence of
  \<^verbatim>\<open>update_direction\<close>, \<^verbatim>\<open>key\<close> and \<^verbatim>\<open>update\<close> calls may run.  A panic of
  \<^verbatim>\<open>update\<close> halts the kernel: \<open>Over e\<close> has no successor, since nothing in
  the code resets the state.  \<open>Stuck\<close> is a \<^verbatim>\<open>spawn_food\<close> probe that never
  returns.  \<open>session_step\<close> is the step relation, \<open>reachable\<close> its closure from
  \<open>start\<close>.  The invariant \<open>session_inv\<close> shows that every reachable running
  state satisfies \<open>game_inv\<close> and still has the food at \<open>(1, 1)\<close>, score 0 and
  length 10: the head only visits even cells, so it never reaches the food.
\<close>

datatype session = Running game_state | Over game_error | Stuck

datatype event = SetDirection direction | Tick | KeyPress decoded_key

definition start :: session where
  "start = (case spawn_food new of None \<Rightarrow> Stuck | Some (s, _) \<Rightarrow> Running s)"

inductive session_step :: "session \<Rightarrow> event \<Rightarrow> session \<Rightarrow> bool" where
  set_direction: "session_step (Running s) (SetDirection d) (Running (update_direction s d))"
| key_press: "session_step (Running s) (KeyPress k) (Running (key s k))"
| tick_continue: "update s = Some (Inr s') \<Longrightarrow> session_step (Running s) Tick (Running s')"
| tick_panic: "update s = Some (Inl e) \<Longrightarrow> session_step (Running s) Tick (Over e)"
| tick_stuck: "update s = None \<Longrightarrow> session_step (Running s) Tick Stuck"

inductive reachable :: "session \<Rightarrow> bool" where
  init: "reachable start"
| step: "reachable t \<Longrightarrow> session_step t ev t' \<Longrightarrow> reachable t'"

text \<open>The state \<open>main\<close> runs the game from, and what every running state keeps.\<close>

definition start_state :: game_state where
  "start_state = new\<lparr>food := (1, 1)\<rparr>"

definition program_inv :: "game_state \<Rightarrow> bool" where
  "program_inv s \<longleftrightarrow> game_inv s \<and> food s = (1, 1) \<and> score s = 0 \<and> length' s = 10"

fun session_inv :: "session \<Rightarrow> bool" where
  "session_inv (Running s) = program_inv s"
| "session_inv (Over e) = (e \<noteq> IndexOutOfBounds)"
| "session_inv Stuck = False"

text \<open>The same steps as a function, and a run over a list of events.\<close>

fun session_next :: "session \<Rightarrow> event \<Rightarrow> session option" where
  "session_next (Running s) (SetDirection d) = Some (Running (update_direction s d))"
| "session_next (Running s) (KeyPress k) = Some (Running (key s k))"
| "session_next (Running s) Tick =
     Some (case update s of None \<Rightarrow> Stuck | Some (Inl e) \<Rightarrow> Over e | Some (Inr s') \<Rightarrow> Running s')"
| "session_next (Over e) ev = None"
| "session_next Stuck ev = None"

fun run :: "session \<Rightarrow> event list \<Rightarrow> session option" where
  "run t [] = Some t"
| "run t (ev # evs) = (case session_next t ev of None \<Rightarrow> None | Some t' \<Rightarrow> run t' evs)"

inductive_cases running_stepE: "session_step (Running s) ev t"
inductive_cases over_stepE: "session_step (Over e) ev t"
inductive_cases stuck_stepE: "session_step Stuck ev t"

lemma start_eq: "start = Running start_state"
  by (simp add: start_def start_state_def spawn_food_new)

lemma snake_start_state: "snake start_state = (12, 40) # replicate 499 (0, 0)"
  by (simp add: start_state_def snake_new)

lemma start_state_fields [simp]:
  "direction start_state = Right" "food start_state = (1, 1)" "length' start_state = 10"
  "score start_state = 0"
  by (simp_all add: start_state_def)

lemma program_inv_start: "program_inv start_state"
proof -
  have "game_inv (new\<lparr>snake := (12, 40) # replicate 499 (0, 0), length' := 10, food := (1, 1)\<rparr>)"
    by (rule game_inv_single_head) (simp_all add: even_cell_12_40 in_grid_unat)
  moreover have "new\<lparr>snake := (12, 40) # replicate 499 (0, 0), length' := 10, food := (1, 1)\<rparr> =
                 start_state"
    by (simp add: start_state_def new_def snake_new [symmetric])
  ultimately show ?thesis
    by (simp add: program_inv_def start_state_def)
qed

lemma even_cell_not_food: "even_cell p \<Longrightarrow> p \<noteq> (1, 1)"
  by (auto simp: even_cell_def)

text \<open>A tick from a running state of the program: the head never meets the
  food, so the tick either moves the snake or ends with a wall or a self
  collision.\<close>

lemma program_tick:
  assumes inv: "program_inv s"
  shows "update s = Some (Inl WallCollision) \<or> update s = Some (Inl SelfCollision) \<or>
         (\<exists>s'. update s = Some (Inr s') \<and> program_inv s')"
proof -
  define h where "h = move_head (hd (snake s)) (direction s)"
  have gi: "game_inv s" and fd: "food s = (1, 1)"
    using inv by (simp_all add: program_inv_def)
  have ne: "snake s \<noteq> []" and ev: "even_cell (hd (snake s))"
    using game_inv_hd [OF gi] by simp_all
  have wf: "wf_state s" and len: "length' s \<le> MAX_SNAKE_LENGTH"
    using gi by (simp_all add: game_inv_def)
  show ?thesis
  proof (cases "in_grid h")
    case False
    then show ?thesis using update_wall [OF ne] by (simp add: h_def)
  next
    case True
    have "h \<noteq> food s"
      using move_head_even [OF ev] True fd even_cell_not_food by (simp add: h_def)
    note upd = update_no_eat [OF wf len h_def True this]
    show ?thesis
    proof (cases "h \<in> set (take (length' s - 1) (snake s))")
      case True
      then show ?thesis using upd by simp
    next
      case False
      then have "update s = Some (Inr (s\<lparr>snake := h # butlast (snake s)\<rparr>))"
        using upd by simp
      moreover have "game_inv (s\<lparr>snake := h # butlast (snake s)\<rparr>)"
        using update_game_inv [OF gi calculation] by simp
      ultimately show ?thesis
        using inv by (simp add: program_inv_def)
    qed
  qed
qed

lemma session_step_inv:
  assumes "session_step t ev t'" and "session_inv t"
  shows "session_inv t'"
  using assms
proof (induction rule: session_step.induct)
  case (set_direction s d)
  then show ?case
    by (auto simp: program_inv_def game_inv_def update_direction_def wf_state_def)
next
  case (key_press s k)
  then show ?case
    by (simp add: key_unchanged)
next
  case (tick_continue s s')
  then show ?case
    using program_tick [of s] by auto
next
  case (tick_panic s e)
  then show ?case
    using program_tick [of s] by auto
next
  case (tick_stuck s)
  then show ?case
    using program_tick [of s] by auto
qed

lemma reachable_session_inv: "reachable t \<Longrightarrow> session_inv t"
proof (induction rule: reachable.induct)
  case init
  show ?case by (simp add: start_eq program_inv_start)
next
  case (step t ev t')
  from step.hyps(2) step.IH show ?case by (rule session_step_inv)
qed

lemma reachable_start_state: "reachable (Running start_state)"
  using reachable.init by (simp add: start_eq)

lemma start_state_tick:
  "update start_state = Some (Inr (start_state\<lparr>snake := (12, 42) # butlast (snake start_state)\<rparr>))"
proof -
  have gi: "game_inv start_state"
    using program_inv_start by (simp add: program_inv_def)
  then have "wf_state start_state" "length' start_state \<le> MAX_SNAKE_LENGTH"
    by (simp_all add: game_inv_def)
  then show ?thesis
    using update_no_eat [of start_state "(12, 42)"]
    by (simp add: snake_start_state in_grid_unat grid_simps)
qed

lemma reachable_after_tick:
  "reachable (Running (start_state\<lparr>snake := (12, 42) # butlast (snake start_state)\<rparr>))"
  using reachable.step [OF reachable_start_state session_step.tick_continue [OF start_state_tick]] .

lemma nth_in_take: "i < n \<Longrightarrow> i < length xs \<Longrightarrow> xs ! i \<in> set (take n xs)"
  by (metis in_set_conv_nth length_take min_less_iff_conj nth_take)

text \<open>Claim C2: every running state the program reaches from
  \<^verbatim>\<open>new()\<close> and the initial \<^verbatim>\<open>spawn_food()\<close>, through any sequence of
  direction changes, key presses and ticks, satisfies the game invariant.\<close>

theorem reachable_game_inv:
  assumes "reachable (Running s)"
  shows "game_inv s"
  using reachable_session_inv [OF assms] by (simp add: program_inv_def)

theorem reachable_game_inv_witness:
  "game_inv (start_state\<lparr>snake := (12, 42) # butlast (snake start_state)\<rparr>)"
  using reachable_game_inv [OF reachable_after_tick] .

text \<open>Claim C5: in every reachable running state the food is still
  at \<open>(1, 1)\<close>, where the first \<^verbatim>\<open>spawn_food()\<close> put it, the score is 0 and the
  length is 10.  The head starts at \<open>(12, 40)\<close> and moves by 2, so both its
  coordinates stay even and it never reaches the food.\<close>

theorem food_never_eaten:
  assumes "reachable (Running s)"
  shows "food s = (1, 1) \<and> score s = 0 \<and> length' s = 10"
  using reachable_session_inv [OF assms] by (simp add: program_inv_def)

theorem food_never_eaten_witness:
  "food (start_state\<lparr>snake := (12, 42) # butlast (snake start_state)\<rparr>) = (1, 1) \<and>
   score (start_state\<lparr>snake := (12, 42) # butlast (snake start_state)\<rparr>) = 0"
  using food_never_eaten [OF reachable_after_tick] by simp

text \<open>Claim C19: no reachable session is stuck in the probe
  loop of \<^verbatim>\<open>spawn_food\<close>, and none ended with the out-of-bounds index panic:
  the game only ends with a wall or a self collision.\<close>

theorem reachable_never_stuck:
  assumes "reachable t"
  shows "t \<noteq> Stuck \<and> t \<noteq> Over IndexOutOfBounds"
  using reachable_session_inv [OF assms] by (cases t) auto

theorem reachable_never_stuck_witness:
  "start \<noteq> Stuck \<and> start \<noteq> Over IndexOutOfBounds"
  using reachable_never_stuck [OF reachable.init] .

text \<open>Claim C28: \<^verbatim>\<open>update_direction\<close> accepts a reversal.  If the
  new direction moves the head onto the segment behind it (a snake of at least
  three segments, the food elsewhere), the next tick ends the game with a self
  collision.\<close>

theorem reverse_into_neck:
  assumes "wf_state s" and "3 \<le> length' s" and "length' s \<le> MAX_SNAKE_LENGTH"
    and "snake s ! 1 = move_head (hd (snake s)) d" and "in_grid (snake s ! 1)"
    and "snake s ! 1 \<noteq> food s"
  shows "update (update_direction s d) = Some (Inl SelfCollision)"
proof -
  let ?s = "update_direction s d"
  have wf: "wf_state ?s" and len: "length' ?s \<le> MAX_SNAKE_LENGTH"
    using assms(1,3) by (simp_all add: wf_state_def update_direction_def)
  have h: "snake ?s ! 1 = move_head (hd (snake ?s)) (direction ?s)"
    using assms(4) by (simp add: update_direction_def)
  have "1 < length (snake s)"
    using assms(1) by (simp add: wf_state_def grid_simps)
  then have "snake ?s ! 1 \<in> set (take (length' ?s - 1) (snake ?s))"
    using assms(2) nth_in_take [of 1 "length' s - 1" "snake s"] by (simp add: update_direction_def)
  then show ?thesis
    using update_no_eat [OF wf len h] assms(5,6) by (simp add: update_direction_def)
qed

theorem reverse_into_neck_witness:
  "update (update_direction (new\<lparr>snake := (12, 40) # (12, 42) # replicate 498 (0, 0),
                                  direction := Left, food := (1, 1)\<rparr>) Right) =
   Some (Inl SelfCollision)"
proof -
  let ?s = "new\<lparr>snake := (12, 40) # (12, 42) # replicate 498 (0::u16, 0::u16),
                direction := Left, food := (1, 1)\<rparr>"
  have wf: "wf_state ?s"
    by (simp add: wf_state_def grid_simps)
  have "3 \<le> length' ?s" "length' ?s \<le> MAX_SNAKE_LENGTH"
    by (simp_all add: grid_simps)
  moreover have "snake ?s ! 1 = move_head (hd (snake ?s)) Right"
    by (simp add: grid_simps)
  moreover have "in_grid (snake ?s ! 1)" "snake ?s ! 1 \<noteq> food ?s"
    by (simp_all add: in_grid_unat)
  ultimately show ?thesis
    using reverse_into_neck [OF wf] by blast
qed

lemma session_step_next: "session_step t ev t' \<longleftrightarrow> session_next t ev = Some t'"
proof
  show "session_next t ev = Some t'" if "session_step t ev t'"
    using that by (induction rule: session_step.induct) auto
  show "session_step t ev t'" if "session_next t ev = Some t'"
    using that
    by (cases "(t, ev)" rule: session_next.cases)
       (auto intro: session_step.intros split: option.splits sum.splits)
qed

lemma run_append:
  "run t (evs @ [ev]) = (case run t evs of None \<Rightarrow> None | Some u \<Rightarrow> session_next u ev)"
  by (induction evs arbitrary: t) (auto split: option.split)

lemma run_reachable: "run start evs = Some t \<Longrightarrow> reachable t"
proof (induction evs arbitrary: t rule: rev_induct)
  case Nil
  then show ?case by (simp add: reachable.init)
next
  case (snoc ev evs)
  then obtain u where "run start evs = Some u" "session_next u ev = Some t"
    by (auto simp: run_append split: option.splits)
  then show ?case
    using snoc.IH reachable.step session_step_next by blast
qed

lemma reachable_run: "reachable t \<Longrightarrow> \<exists>evs. run start evs = Some t"
proof (induction rule: reachable.induct)
  case init
  have "run start [] = Some start" by simp
  then show ?case ..
next
  case (step t ev t')
  then obtain evs where "run start evs = Some t"
    by blast
  with step.hyps(2) have "run start (evs @ [ev]) = Some t'"
    by (simp add: run_append session_step_next)
  then show ?case ..
qed

text \<open>The reachable sessions are exactly those some finite sequence of API
  calls, run from the start of \<^verbatim>\<open>main\<close>, produces.\<close>

lemma reachable_iff_run: "reachable t \<longleftrightarrow> (\<exists>evs. run start evs = Some t)"
  using reachable_run run_reachable by blast

end
