(* ===== verification/Render.thy ===== *)
theory Render
  imports Session
begin

text \<open>
  The drawing side of the program and the body of the main loop.  From
  \<^verbatim>\<open>src/src/lib.rs\<close>: the colour constants (lines 33--35) and \<^verbatim>\<open>draw_snake\<close>
  (lines 152--170), modelled as the list of \<^verbatim>\<open>plot\<close> calls it makes (the VGA
  primitive itself belongs to \<^verbatim>\<open>pluggable_interrupt_os\<close>).  From
  \<^verbatim>\<open>src/src/main.rs\<close>: \<^verbatim>\<open>SCREEN_SIZE\<close> (line 14), the zeroing of the buffer
  (lines 23--25), the food drawing into the byte buffer (lines 36--44), where
  \<^verbatim>\<open>buffer[idx..idx + 4]\<close> panics when the range passes the end of the slice,
  and one iteration of the \<^verbatim>\<open>loop\<close> (lines 26--49).  The loop takes a pending
  key, draws, and never calls \<^verbatim>\<open>update\<close>.
\<close>

type_synonym byte = "8 word"

datatype color = Black | LightGreen | Red

datatype color_code = ColorCode color color

datatype plot_call = Plot char nat nat color_code

datatype render_error = SliceOutOfRange | PlotOutOfRange

definition COLOR_BACKGROUND :: color where
  "COLOR_BACKGROUND = Black"

definition COLOR_SNAKE :: color where
  "COLOR_SNAKE = LightGreen"

definition COLOR_FOOD :: color where
  "COLOR_FOOD = Red"

text \<open>\<^verbatim>\<open>plot('*', col, row, ...)\<close> for each of the first \<^verbatim>\<open>length\<close> segments:
  \<^verbatim>\<open>plot\<close> takes the column before the row.\<close>

definition draw_snake :: "game_state \<Rightarrow> plot_call list" where
  "draw_snake s =
     map (\<lambda>(row, col). Plot CHR ''*'' (unat col) (unat row) (ColorCode COLOR_SNAKE COLOR_BACKGROUND))
       (take (length' s) (snake s))"

text \<open>The VGA text screen of \<^verbatim>\<open>pluggable_interrupt_os\<close>: 80 columns, 25 rows.\<close>

definition BUFFER_WIDTH :: nat where
  "BUFFER_WIDTH = 80"

definition BUFFER_HEIGHT :: nat where
  "BUFFER_HEIGHT = 25"

fun drawable_call :: "plot_call \<Rightarrow> bool" where
  "drawable_call (Plot _ col row _) \<longleftrightarrow> col < BUFFER_WIDTH \<and> row < BUFFER_HEIGHT"

definition SCREEN_SIZE :: nat where
  "SCREEN_SIZE = ROWS * COLS * BLOCK_SIZE * BLOCK_SIZE * 4"

definition clear_buffer :: "byte list \<Rightarrow> byte list" where
  "clear_buffer buf = map (\<lambda>_. 0) buf"

text \<open>\<^verbatim>\<open>buffer[idx..idx + n].copy_from_slice(src)\<close>: the range is checked
  against the slice first.\<close>

definition write_slice :: "byte list \<Rightarrow> nat \<Rightarrow> byte list \<Rightarrow> render_error + byte list" where
  "write_slice buf idx src =
     (if idx + length src \<le> length buf
      then Inr (take idx buf @ src @ drop (idx + length src) buf)
      else Inl SliceOutOfRange)"

fun write_all :: "byte list \<Rightarrow> nat list \<Rightarrow> byte list \<Rightarrow> render_error + byte list" where
  "write_all buf [] src = Inr buf"
| "write_all buf (idx # idxs) src =
     (case write_slice buf idx src of
        Inl e \<Rightarrow> Inl e
      | Inr buf' \<Rightarrow> write_all buf' idxs src)"

text \<open>The byte offsets of lines 37--41, in the order of the two nested loops.\<close>

definition food_indices :: "pos \<Rightarrow> nat list" where
  "food_indices p =
     (let food_start_idx = (unat (fst p) * COLS + unat (snd p)) * BLOCK_SIZE * BLOCK_SIZE * 4
      in concat (map (\<lambda>i. map (\<lambda>j. food_start_idx + (i * COLS + j) * 4) [0..<BLOCK_SIZE])
                   [0..<BLOCK_SIZE]))"

definition draw_food :: "game_state \<Rightarrow> byte list \<Rightarrow> render_error + byte list" where
  "draw_food s buf = write_all buf (food_indices (food s)) [0xff, 0x00, 0x00, 0xff]"

text \<open>The VGA primitive \<^verbatim>\<open>plot\<close> of \<^verbatim>\<open>pluggable_interrupt_os\<close> writes the
  character byte and the colour byte of text cell \<open>(row, col)\<close> into the
  80 by 25 array of two-byte cells at \<^verbatim>\<open>0xb8000\<close>, indexing it by row and
  column (a panic past its bounds).  The slice \<^verbatim>\<open>buffer\<close> of \<^verbatim>\<open>main.rs\<close>
  (line 22) starts at the same address, so \<^verbatim>\<open>plot\<close> writes into \<^verbatim>\<open>buffer\<close>:
  the model applies every \<^verbatim>\<open>plot\<close> call to the one byte list, cell
  \<open>(row, col)\<close> at bytes \<open>2 * (row * 80 + col)\<close> and the next one.  The VGA
  colour numbers are Black 0, Red 4 and LightGreen 10, and
  \<^verbatim>\<open>ColorCode::new(fg, bg)\<close> is the byte \<open>bg * 16 + fg\<close>.\<close>

fun color_byte :: "color \<Rightarrow> byte" where
  "color_byte Black = 0"
| "color_byte Red = 4"
| "color_byte LightGreen = 10"

fun color_code_byte :: "color_code \<Rightarrow> byte" where
  "color_code_byte (ColorCode fg bg) = color_byte bg * 16 + color_byte fg"

fun plot_write :: "byte list \<Rightarrow> plot_call \<Rightarrow> render_error + byte list" where
  "plot_write buf (Plot c col row cc) =
     (if col < BUFFER_WIDTH \<and> row < BUFFER_HEIGHT
      then Inr (buf[2 * (row * BUFFER_WIDTH + col) := of_char c,
                    2 * (row * BUFFER_WIDTH + col) + 1 := color_code_byte cc])
      else Inl PlotOutOfRange)"

fun plot_all :: "byte list \<Rightarrow> plot_call list \<Rightarrow> render_error + byte list" where
  "plot_all buf [] = Inr buf"
| "plot_all buf (c # cs) =
     (case plot_write buf c of Inl e \<Rightarrow> Inl e | Inr buf' \<Rightarrow> plot_all buf' cs)"

text \<open>Lines 27--46: take the pending key out of \<^verbatim>\<open>LAST_KEY\<close> and hand it to
  \<^verbatim>\<open>key\<close>; then draw the food into \<^verbatim>\<open>buffer\<close> and the snake through
  \<^verbatim>\<open>plot\<close>, into the same memory.  The result holds the new key slot, the
  kernel state, the buffer and the plot calls.\<close>

definition main_frame ::
  "decoded_key option \<Rightarrow> game_state \<Rightarrow> byte list \<Rightarrow>
     render_error + (decoded_key option \<times> game_state \<times> byte list \<times> plot_call list)" where
  "main_frame slot s buf =
     (let (slot', s1) = (case slot of Some k \<Rightarrow> (None, key s k) | None \<Rightarrow> (None, s))
      in case draw_food s1 buf of
           Inl e \<Rightarrow> Inl e
         | Inr buf' \<Rightarrow>
             (case plot_all buf' (draw_snake s1) of
                Inl e \<Rightarrow> Inl e
              | Inr buf'' \<Rightarrow> Inr (slot', s1, buf'', draw_snake s1)))"

fun main_loop ::
  "nat \<Rightarrow> decoded_key option \<Rightarrow> game_state \<Rightarrow> byte list \<Rightarrow>
     render_error + (decoded_key option \<times> game_state \<times> byte list)" where
  "main_loop 0 slot s buf = Inr (slot, s, buf)"
| "main_loop (Suc n) slot s buf =
     (case main_frame slot s buf of
        Inl e \<Rightarrow> Inl e
      | Inr (slot', s', buf', _) \<Rightarrow> main_loop n slot' s' buf')"

lemma SCREEN_SIZE_32000 [grid_simps]: "SCREEN_SIZE = 32000"
  by (simp add: SCREEN_SIZE_def grid_simps)

lemma food_indices_eq:
  "food_indices p =
     (let st = (unat (fst p) * 80 + unat (snd p)) * 16 in [st, st + 4, st + 320, st + 324])"
  by (simp add: food_indices_def grid_simps upt_rec Let_def)

lemma write_slice_length:
  "write_slice buf idx src = Inr buf' \<Longrightarrow> length buf' = length buf"
  by (auto simp: write_slice_def split: if_splits)

lemma write_all_fails_iff:
  "isl (write_all buf idxs src) \<longleftrightarrow> (\<exists>idx\<in>set idxs. length buf < idx + length src)"
proof (induction idxs arbitrary: buf)
  case Nil
  show ?case by simp
next
  case (Cons idx idxs)
  show ?case
  proof (cases "idx + length src \<le> length buf")
    case True
    then obtain buf' where w: "write_slice buf idx src = Inr buf'" and "length buf' = length buf"
      by (simp add: write_slice_def)
    with Cons.IH [of buf'] True show ?thesis
      by auto
  next
    case False
    then show ?thesis
      by (simp add: write_slice_def)
  qed
qed

lemma write_all_length:
  "write_all buf idxs src = Inr buf' \<Longrightarrow> length buf' = length buf"
proof (induction idxs arbitrary: buf)
  case Nil
  then show ?case by simp
next
  case (Cons idx idxs)
  then show ?case
    by (auto split: sum.splits dest: write_slice_length)
qed

text \<open>The food drawing stays inside a buffer of \<^verbatim>\<open>SCREEN_SIZE\<close> bytes exactly
  when the cell's byte offset leaves room for the last of its four writes.\<close>

lemma draw_food_fails_iff:
  assumes "length buf = SCREEN_SIZE"
  shows "isl (draw_food s buf) \<longleftrightarrow> 31672 < (unat (fst (food s)) * 80 + unat (snd (food s))) * 16"
  unfolding draw_food_def write_all_fails_iff
  using assms by (auto simp: food_indices_eq grid_simps Let_def)

lemma plot_all_length:
  "plot_all buf cs = Inr buf' \<Longrightarrow> length buf' = length buf"
proof (induction cs arbitrary: buf)
  case Nil
  then show ?case by simp
next
  case (Cons c cs)
  then show ?case
    by (cases c) (auto split: if_splits)
qed

lemma plot_all_ok:
  "\<forall>c\<in>set cs. drawable_call c \<Longrightarrow> \<exists>buf'. plot_all buf cs = Inr buf'"
proof (induction cs arbitrary: buf)
  case Nil
  then show ?case by simp
next
  case (Cons c cs)
  then show ?case
    by (cases c) auto
qed

lemma draw_food_length: "draw_food s buf = Inr buf' \<Longrightarrow> length buf' = length buf"
  by (simp add: draw_food_def write_all_length)

lemma main_frame_state:
  "main_frame slot s buf = Inr (slot', s', buf', calls) \<Longrightarrow>
     slot' = None \<and> s' = s \<and> length buf' = length buf \<and> calls = draw_snake s"
  by (auto simp: main_frame_def key_unchanged split: option.splits sum.splits
           dest!: draw_food_length plot_all_length)

lemma draw_food_ok:
  assumes "length buf = SCREEN_SIZE" and "\<not> 31672 < (unat (fst (food s)) * 80 + unat (snd (food s))) * 16"
  shows "\<exists>buf'. draw_food s buf = Inr buf' \<and> length buf' = length buf"
proof -
  obtain buf' where "draw_food s buf = Inr buf'"
    using draw_food_fails_iff [OF assms(1), of s] assms(2) by (cases "draw_food s buf") auto
  then show ?thesis
    by (auto simp: draw_food_def dest: write_all_length)
qed

lemma main_frame_ok:
  "draw_food s buf = Inr buf1 \<Longrightarrow> plot_all buf1 (draw_snake s) = Inr buf2 \<Longrightarrow>
     main_frame slot s buf = Inr (None, s, buf2, draw_snake s)"
  by (simp add: main_frame_def key_unchanged split: option.split)

text \<open>Under the game invariant every segment is on the grid, so every
  \<^verbatim>\<open>plot\<close> call of \<^verbatim>\<open>draw_snake\<close> is inside the text screen.\<close>

lemma draw_snake_drawable:
  assumes "game_inv s"
  shows "\<forall>c\<in>set (draw_snake s). drawable_call c"
proof -
  have "\<forall>p\<in>set (take (length' s) (snake s)). in_grid p"
    using assms in_set_takeD by (fastforce simp: game_inv_def even_cell_def)
  then show ?thesis
    by (auto simp: draw_snake_def in_grid_unat BUFFER_WIDTH_def BUFFER_HEIGHT_def)
qed

lemma food_offset_safe_iff:
  assumes "in_grid p"
  shows "31672 < (unat (fst p) * 80 + unat (snd p)) * 16 \<longleftrightarrow>
         unat (fst p) = 24 \<and> 60 \<le> unat (snd p)"
  using assms by (auto simp: in_grid_unat)

text \<open>Claim C29: the food drawing of the main loop panics on a
  buffer of \<^verbatim>\<open>SCREEN_SIZE\<close> bytes exactly when the food lies in the bottom row at
  column 60 or beyond: its last write starts at byte
  \<open>(row * 80 + col) * 16 + 324\<close>, which passes 32000 there.\<close>

theorem draw_food_out_of_range:
  assumes "length buf = SCREEN_SIZE" and "in_grid (food s)"
  shows "isl (draw_food s buf) \<longleftrightarrow> unat (fst (food s)) = 24 \<and> 60 \<le> unat (snd (food s))"
  using draw_food_fails_iff [OF assms(1)] food_offset_safe_iff [OF assms(2)] by simp

theorem draw_food_out_of_range_witness:
  "isl (draw_food (start_state\<lparr>food := (24, 79)\<rparr>) (replicate 32000 0))"
proof -
  have "length (replicate 32000 (0::byte)) = SCREEN_SIZE" "in_grid (food (start_state\<lparr>food := (24, 79)\<rparr>))"
    by (simp_all add: grid_simps in_grid_unat)
  then show ?thesis
    using draw_food_out_of_range by simp
qed

text \<open>Claim C24: the main loop never changes the kernel state and never
  panics on a state of the game.  From a state satisfying the game invariant
  whose food it can draw, any number of iterations returns with the game state
  exactly as it was: \<^verbatim>\<open>update\<close> is never called, \<^verbatim>\<open>key\<close> does nothing, the
  food writes stay inside the buffer and every \<^verbatim>\<open>plot\<close> call of the snake is
  on the text screen.\<close>

theorem main_loop_frozen:
  assumes "length buf = SCREEN_SIZE" and "game_inv s"
    and "\<not> (unat (fst (food s)) = 24 \<and> 60 \<le> unat (snd (food s)))"
  shows "\<exists>slot' buf'. main_loop n slot s buf = Inr (slot', s, buf')"
  using assms(1)
proof (induction n arbitrary: slot buf)
  case 0
  show ?case by simp
next
  case (Suc n)
  have "in_grid (food s)"
    using assms(2) by (simp add: game_inv_def)
  then have "\<not> 31672 < (unat (fst (food s)) * 80 + unat (snd (food s))) * 16"
    using food_offset_safe_iff assms(3) by simp
  then obtain buf1 where d: "draw_food s buf = Inr buf1" and l: "length buf1 = length buf"
    using draw_food_ok [OF Suc.prems] by blast
  obtain buf2 where p: "plot_all buf1 (draw_snake s) = Inr buf2"
    using plot_all_ok [OF draw_snake_drawable [OF assms(2)]] by blast
  obtain slot' buf3 where "main_loop n None s buf2 = Inr (slot', s, buf3)"
    using Suc.IH [of buf2 None] l plot_all_length [OF p] Suc.prems by auto
  then show ?case
    using main_frame_ok [OF d p, of slot] by auto
qed

theorem main_loop_frozen_witness:
  "\<exists>slot' buf'. main_loop 3 None start_state (replicate 32000 0) = Inr (slot', start_state, buf')"
proof -
  have "length (replicate 32000 (0::byte)) = SCREEN_SIZE" "game_inv start_state"
    "\<not> (unat (fst (food start_state)) = 24 \<and> 60 \<le> unat (snd (food start_state)))"
    using program_inv_start by (simp_all add: grid_simps program_inv_def)
  then show ?thesis
    using main_loop_frozen by blast
qed

text \<open>Claim C31: in a state satisfying the game invariant
  \<^verbatim>\<open>draw_snake\<close> makes one \<^verbatim>\<open>plot\<close> call per active segment, and every call
  lies on the 80 by 25 text screen.\<close>

theorem draw_snake_on_screen:
  assumes "game_inv s"
  shows "length (draw_snake s) = length' s \<and> (\<forall>c\<in>set (draw_snake s). drawable_call c)"
proof -
  have len: "length' s \<le> length (snake s)"
    using assms by (simp add: game_inv_def wf_state_def)
  with draw_snake_drawable [OF assms] show ?thesis
    by (simp add: draw_snake_def)
qed

theorem draw_snake_on_screen_witness: "length (draw_snake start_state) = 10"
proof -
  have "game_inv start_state"
    using program_inv_start by (simp add: program_inv_def)
  then show ?thesis
    using draw_snake_on_screen by simp
qed

end
