(* ===== verification/Key_Handoff.thy ===== *)
theory Key_Handoff
  imports Game_State
begin

text \<open>
  The pending-key slot \<^verbatim>\<open>LAST_KEY\<close> of \<^verbatim>\<open>src/src/main.rs\<close> (line 13, an
  \<^verbatim>\<open>AtomicCell<Option<DecodedKey>>\<close>) and the way the main loop drains it
  (lines 27--30): an atomic \<^verbatim>\<open>load()\<close>, then, if a key was there, an atomic
  \<^verbatim>\<open>store(None)\<close> and the call \<^verbatim>\<open>kernel.key(key)\<close>.  The two accesses are
  separate atomic steps, so an interrupt can run between them.  The interrupt
  side is the writer that spec section 5 describes (a keyboard handler storing
  the decoded key into the slot); the program installs none, so it is the
  environment's action \<open>irq_store\<close> here.  The state holds the slot, the
  position of the main loop between the two accesses, and two histories: the
  keys handed to \<^verbatim>\<open>key\<close> and the keys the writer stored.  A schedule is a list of
  actors; \<open>handoff_run\<close> executes it.
\<close>

datatype 'k drain_pc = AtLoad | AtStore 'k

record 'k handoff =
  last_key :: "'k option"
  pc :: "'k drain_pc"
  delivered :: "'k list"
  written :: "'k list"

datatype 'k actor = MainLoop | Interrupt 'k

text \<open>One atomic step of the main loop: the \<^verbatim>\<open>load()\<close> of line 27, or the
  \<^verbatim>\<open>store(None)\<close> of line 28 together with the call of line 29, which does not
  touch the slot.\<close>

definition drain_step :: "'k handoff \<Rightarrow> 'k handoff" where
  "drain_step h =
     (case pc h of
        AtLoad \<Rightarrow> (case last_key h of None \<Rightarrow> h | Some k \<Rightarrow> h\<lparr>pc := AtStore k\<rparr>)
      | AtStore k \<Rightarrow> h\<lparr>last_key := None, pc := AtLoad, delivered := delivered h @ [k]\<rparr>)"

text \<open>The writer: \<^verbatim>\<open>LAST_KEY.store(Some(key))\<close> from interrupt context.\<close>

definition irq_store :: "'k \<Rightarrow> 'k handoff \<Rightarrow> 'k handoff" where
  "irq_store k h = h\<lparr>last_key := Some k, written := written h @ [k]\<rparr>"

fun handoff_run :: "'k actor list \<Rightarrow> 'k handoff \<Rightarrow> 'k handoff" where
  "handoff_run [] h = h"
| "handoff_run (MainLoop # as) h = handoff_run as (drain_step h)"
| "handoff_run (Interrupt k # as) h = handoff_run as (irq_store k h)"

text \<open>A writer that never overwrites: it stores only into an empty slot.\<close>

fun polite :: "'k actor list \<Rightarrow> 'k handoff \<Rightarrow> bool" where
  "polite [] h = True"
| "polite (MainLoop # as) h = polite as (drain_step h)"
| "polite (Interrupt k # as) h = (last_key h = None \<and> polite as (irq_store k h))"

text \<open>The keys written and not yet handed to \<^verbatim>\<open>key\<close>.\<close>

definition pending :: "'k handoff \<Rightarrow> 'k list" where
  "pending h = (case last_key h of None \<Rightarrow> [] | Some k \<Rightarrow> [k])"

definition handoff_inv :: "'k handoff \<Rightarrow> bool" where
  "handoff_inv h \<longleftrightarrow>
     written h = delivered h @ pending h \<and> (\<forall>k. pc h = AtStore k \<longrightarrow> last_key h = Some k)"

definition handoff_init :: "'k handoff" where
  "handoff_init = \<lparr>last_key = None, pc = AtLoad, delivered = [], written = []\<rparr>"

lemma handoff_run_append:
  "handoff_run (as @ bs) h = handoff_run bs (handoff_run as h)"
  by (induction as h rule: handoff_run.induct) simp_all

lemma drain_idle:
  "pc h = AtLoad \<Longrightarrow> last_key h = None \<Longrightarrow> handoff_run (replicate n MainLoop) h = h"
  by (induction n) (simp_all add: drain_step_def)

lemma drain_step_inv: "handoff_inv h \<Longrightarrow> handoff_inv (drain_step h)"
  by (auto simp: handoff_inv_def drain_step_def pending_def split: drain_pc.splits option.splits)

lemma irq_store_inv:
  "handoff_inv h \<Longrightarrow> last_key h = None \<Longrightarrow> handoff_inv (irq_store k h)"
  by (auto simp: handoff_inv_def irq_store_def pending_def)

lemma handoff_init_inv: "handoff_inv handoff_init"
  by (simp add: handoff_inv_def handoff_init_def pending_def)

text \<open>Claim C16: with a writer that only stores into an empty slot, the drain of
  the main loop hands every key written to \<^verbatim>\<open>key\<close> exactly once and in the
  order written: at every point of any interleaving the keys written are the
  keys delivered followed by the one still in the slot.\<close>

theorem handoff_delivers_in_order:
  assumes "handoff_inv h" and "polite as h"
  shows "handoff_inv (handoff_run as h)"
  using assms
  by (induction as h rule: handoff_run.induct) (simp_all add: drain_step_inv irq_store_inv)

theorem handoff_delivers_in_order_witness:
  "written (handoff_run [Interrupt (1::nat), MainLoop, MainLoop, Interrupt 2, MainLoop] handoff_init) =
   delivered (handoff_run [Interrupt (1::nat), MainLoop, MainLoop, Interrupt 2, MainLoop] handoff_init) @
   pending (handoff_run [Interrupt (1::nat), MainLoop, MainLoop, Interrupt 2, MainLoop] handoff_init)"
proof -
  have "polite [Interrupt (1::nat), MainLoop, MainLoop, Interrupt 2, MainLoop] handoff_init"
    by (simp add: handoff_init_def drain_step_def irq_store_def)
  from handoff_delivers_in_order [OF handoff_init_inv this] show ?thesis
    by (simp add: handoff_inv_def)
qed

text \<open>Claim C15: the drain is not an atomic hand-off.  When the main loop has
  loaded a key \<open>k0\<close> and the interrupt stores a new key \<open>k1\<close> before the
  \<^verbatim>\<open>store(None)\<close>, that store erases \<open>k1\<close>: only \<open>k0\<close> is handed to \<^verbatim>\<open>key\<close>,
  the slot is empty, and no number of later iterations delivers \<open>k1\<close>, although
  it is the last key the writer stored.\<close>

theorem drain_loses_key:
  assumes "pc h = AtLoad" and "last_key h = Some k0"
  shows "handoff_run ([MainLoop, Interrupt k1, MainLoop] @ replicate n MainLoop) h =
           h\<lparr>last_key := None, delivered := delivered h @ [k0], written := written h @ [k1]\<rparr>"
proof -
  have "handoff_run [MainLoop, Interrupt k1, MainLoop] h =
          h\<lparr>last_key := None, delivered := delivered h @ [k0], written := written h @ [k1]\<rparr>"
    using assms by (simp add: drain_step_def irq_store_def)
  then show ?thesis
    using assms by (simp add: handoff_run_append drain_idle)
qed

theorem drain_loses_key_witness:
  "handoff_run ([MainLoop, Interrupt (2::nat), MainLoop] @ replicate 5 MainLoop)
      \<lparr>last_key = Some 1, pc = AtLoad, delivered = [], written = [1]\<rparr> =
   \<lparr>last_key = None, pc = AtLoad, delivered = [1], written = [1, 2]\<rparr>"
  using drain_loses_key [of "\<lparr>last_key = Some (1::nat), pc = AtLoad, delivered = [], written = [1]\<rparr>" 1 2 5]
  by simp

end
