(* ===== verification/Kernel.thy ===== *)
theory Kernel
  imports Render Key_Handoff
begin

text \<open>
  The whole of \<^verbatim>\<open>_start\<close> in \<^verbatim>\<open>src/src/main.rs\<close> (lines 12--49) as one
  definition: \<^verbatim>\<open>GameState::new()\<close>, the first \<^verbatim>\<open>spawn_food()\<close>, the zeroing
  of the \<^verbatim>\<open>SCREEN_SIZE\<close> bytes at \<^verbatim>\<open>0xb8000\<close> (whatever they held), and
  \<open>n\<close> iterations of the main loop with \<^verbatim>\<open>LAST_KEY\<close> empty.  The \<open>option\<close> is the
  food probe that might not return, the sum the slice panic of the food
  drawing or of a \<^verbatim>\<open>plot\<close> call.  Then the geometry of what the loop draws:
  the two ways in which the food drawing does not match the text screen the
  snake is plotted on.  Last, the agreement of the main loop's key handling in
  \<open>main_frame\<close> with the drain of \<open>Key_Handoff\<close> when no interrupt intervenes.
\<close>

definition kernel_start ::
  "nat \<Rightarrow> byte list \<Rightarrow> (render_error + (decoded_key option \<times> game_state \<times> byte list)) option" where
  "kernel_start n mem =
     (case spawn_food new of
        None \<Rightarrow> None
      | Some (s, _) \<Rightarrow> Some (main_loop n None s (clear_buffer mem)))"

text \<open>The buffer after the food drawing of the first frame: zero except the
  four 4-byte food pixels \<^verbatim>\<open>[0xff, 0x00, 0x00, 0xff]\<close> at offsets 1296,
  1300, 1616 and 1620, the food block of cell \<open>(1, 1)\<close>.\<close>

definition food_screen :: "byte list" where
  "food_screen =
     replicate 1296 0 @ [0xff, 0, 0, 0xff, 0xff, 0, 0, 0xff] @ replicate 312 0 @
     [0xff, 0, 0, 0xff, 0xff, 0, 0, 0xff] @ replicate 30376 0"

text \<open>The screen after every frame of the initial kernel: the food block
  and, written by \<^verbatim>\<open>plot\<close> into the same memory, the snake's ten segments:
  \<^verbatim>\<open>'*'\<close> (\<open>0x2a\<close>) with colour \<open>0x0a\<close> (light green on black) at text cell
  \<open>(12, 40)\<close>, bytes 2000 and 2001, and at the nine stale segments' cell
  \<open>(0, 0)\<close>, bytes 0 and 1.\<close>

definition frame_screen :: "byte list" where
  "frame_screen =
     [0x2a, 0x0a] @ replicate 1294 0 @ [0xff, 0, 0, 0xff, 0xff, 0, 0, 0xff] @ replicate 312 0 @
     [0xff, 0, 0, 0xff, 0xff, 0, 0, 0xff] @ replicate 376 0 @ [0x2a, 0x0a] @ replicate 29998 0"

text \<open>The slice starts at \<^verbatim>\<open>0xb8000\<close>, the VGA text buffer, whose cell
  \<open>(row, col)\<close> starts at byte \<open>2 * (row * BUFFER_WIDTH + col)\<close> (a character
  byte and a colour byte).\<close>

definition vga_text_offset :: "nat \<Rightarrow> nat \<Rightarrow> nat" where
  "vga_text_offset row col = 2 * (row * BUFFER_WIDTH + col)"

definition handoff_of_slot :: "'k option \<Rightarrow> 'k handoff" where
  "handoff_of_slot slot = handoff_init\<lparr>last_key := slot\<rparr>"

lemma hd_food_indices: "hd (food_indices p) = (unat (fst p) * 80 + unat (snd p)) * 16"
  by (simp add: food_indices_eq Let_def)

lemma clear_buffer_replicate: "clear_buffer buf = replicate (length buf) 0"
  by (simp add: clear_buffer_def map_replicate_const)

lemma draw_food_start_zero:
  "draw_food start_state (replicate 32000 0) = Inr food_screen"
  by (simp add: draw_food_def food_indices_eq write_slice_def food_screen_def)

lemma replicate_update:
  "i < n \<Longrightarrow> (replicate n x)[i := v] = replicate i x @ v # replicate (n - Suc i) x"
  by (auto simp: list_eq_iff_nth_eq nth_list_update nth_append nth_Cons' split: nat.split)

lemma draw_snake_start:
  "draw_snake start_state =
     Plot CHR ''*'' 40 12 (ColorCode LightGreen Black) #
     replicate 9 (Plot CHR ''*'' 0 0 (ColorCode LightGreen Black))"
  by (simp add: draw_snake_def snake_start_state COLOR_SNAKE_def COLOR_BACKGROUND_def)

text \<open>Plotting the stale segment again over a screen that already shows it
  changes nothing.\<close>

lemma plot_origin_repeat:
  assumes "buf ! 0 = 0x2a" and "buf ! 1 = 0x0a" and "2 \<le> length buf"
  shows "plot_all buf (replicate n (Plot CHR ''*'' 0 0 (ColorCode LightGreen Black))) = Inr buf"
proof (induction n)
  case 0
  then show ?case by simp
next
  case (Suc n)
  have "buf[0 := 0x2a, 1 := 0x0a] = buf"
    using assms by (metis list_update_id)
  with Suc show ?case
    by (simp add: BUFFER_WIDTH_def BUFFER_HEIGHT_def)
qed

lemma plot_start_food_screen:
  "plot_all food_screen (draw_snake start_state) = Inr frame_screen"
proof -
  have r9: "replicate 9 (Plot CHR ''*'' 0 0 (ColorCode LightGreen Black)) =
            Plot CHR ''*'' 0 0 (ColorCode LightGreen Black) #
            replicate 8 (Plot CHR ''*'' 0 0 (ColorCode LightGreen Black))"
    by (simp add: eval_nat_numeral)
  show ?thesis
    unfolding draw_snake_start r9
    by (simp add: food_screen_def frame_screen_def BUFFER_WIDTH_def BUFFER_HEIGHT_def
        list_update_append replicate_update plot_origin_repeat)
qed

lemma draw_food_frame_screen:
  "draw_food start_state frame_screen = Inr frame_screen"
  by (simp add: draw_food_def food_indices_eq write_slice_def frame_screen_def)

lemma plot_start_frame_screen:
  "plot_all frame_screen (draw_snake start_state) = Inr frame_screen"
  by (simp add: draw_snake_start frame_screen_def BUFFER_WIDTH_def BUFFER_HEIGHT_def
        list_update_append plot_origin_repeat)

lemma main_loop_frame_screen:
  "main_loop n None start_state frame_screen = Inr (None, start_state, frame_screen)"
  by (induction n) (simp_all add: main_frame_ok [OF draw_food_frame_screen plot_start_frame_screen])

text \<open>Claim C6: \<^verbatim>\<open>_start\<close> never panics and never changes the game.
  Whatever the screen memory held, after the zeroing and any number of frames
  the kernel state is the initial one, the key slot is empty, and the screen
  holds the zeroed buffer before the first frame and after each frame the same
  image: the food block of cell \<open>(1, 1)\<close> written through \<^verbatim>\<open>buffer\<close> and the
  snake's \<^verbatim>\<open>'*'\<close> at text cells \<open>(12, 40)\<close> and \<open>(0, 0)\<close> written by
  \<^verbatim>\<open>plot\<close> into the same memory.  The snake never moves on the screen.\<close>

theorem kernel_start_screen:
  assumes "length mem = SCREEN_SIZE"
  shows "kernel_start n mem =
           Some (Inr (None, start_state, if n = 0 then replicate SCREEN_SIZE 0 else frame_screen))"
proof (cases n)
  case 0
  then show ?thesis
    using assms by (simp add: kernel_start_def spawn_food_new start_state_def clear_buffer_replicate)
next
  case (Suc m)
  have "clear_buffer mem = replicate 32000 0"
    using assms by (simp add: clear_buffer_replicate grid_simps)
  with Suc show ?thesis
    by (simp add: kernel_start_def spawn_food_new start_state_def [symmetric]
        main_frame_ok [OF draw_food_start_zero plot_start_food_screen] main_loop_frame_screen)
qed

theorem kernel_start_screen_witness:
  "kernel_start 2 (replicate 32000 7) = Some (Inr (None, start_state, frame_screen))"
  using kernel_start_screen [of "replicate 32000 7" 2] by (simp add: grid_simps)

text \<open>Claim C26: the 2 by 2 food blocks of distinct cells overlap.  A
  cell advances the offset by 16 bytes and a block row by \<^verbatim>\<open>COLS * 4 = 320\<close>,
  so the second row of the block of \<open>(r, c)\<close> is the first row of the block
  of \<open>(r, c + 20)\<close>, another cell on the grid.\<close>

theorem food_blocks_overlap:
  assumes "in_grid p" and "unat (snd p) < 60"
  shows "in_grid (fst p, snd p + 20) \<and> (fst p, snd p + 20) \<noteq> p \<and>
         set (food_indices p) \<inter> set (food_indices (fst p, snd p + 20)) =
           {food_indices p ! 2, food_indices p ! 3}"
proof -
  have c: "unat (snd p + 20) = unat (snd p) + 20"
    using assms by (simp add: unat_add_small)
  then have "snd p + 20 \<noteq> snd p"
    by (metis add_cancel_left_right zero_neq_numeral)
  with assms c show ?thesis
    by (auto simp: food_indices_eq in_grid_unat Let_def prod_eq_iff)
qed

theorem food_blocks_overlap_witness:
  "set (food_indices (1, 1)) \<inter> set (food_indices (1, 21)) = {1616, 1620}"
  using food_blocks_overlap [of "(1, 1)"] by (simp add: in_grid_unat food_indices_eq)

text \<open>Claim C25: the food is not drawn at its own cell of the text screen
  the snake is plotted on.  Its first byte lies at eight times the offset of the
  text cell, which coincides with it only at \<open>(0, 0)\<close>, and lies past the
  4000 bytes of the 80 by 25 text buffer from cell index 250 on.\<close>

theorem food_misplaced:
  assumes "in_grid p"
  shows "hd (food_indices p) = 8 * vga_text_offset (unat (fst p)) (unat (snd p)) \<and>
         (hd (food_indices p) = vga_text_offset (unat (fst p)) (unat (snd p)) \<longleftrightarrow> p = (0, 0)) \<and>
         (2 * BUFFER_WIDTH * BUFFER_HEIGHT \<le> hd (food_indices p) \<longleftrightarrow>
            250 \<le> unat (fst p) * 80 + unat (snd p))"
  using assms
  by (auto simp: hd_food_indices vga_text_offset_def BUFFER_WIDTH_def BUFFER_HEIGHT_def
                 prod_eq_iff word_unat_eq_iff)

theorem food_misplaced_witness:
  "hd (food_indices (food start_state)) = 8 * vga_text_offset 1 1 \<and>
   hd (food_indices (food start_state)) \<noteq> vga_text_offset 1 1"
  using food_misplaced [of "food start_state"] by (simp add: in_grid_unat)

text \<open>The key handling of one frame is the drain of \<open>Key_Handoff\<close> run twice
  with no interrupt in between: the slot ends as the drain leaves it, and the
  kernel state is what \<^verbatim>\<open>key\<close> makes of the keys the drain delivers.\<close>

lemma main_frame_drains_slot:
  assumes "main_frame slot s buf = Inr (slot', s', buf', calls)"
  shows "slot' = last_key (handoff_run [MainLoop, MainLoop] (handoff_of_slot slot)) \<and>
         s' = fold (\<lambda>k st. key st k) (delivered (handoff_run [MainLoop, MainLoop] (handoff_of_slot slot))) s"
  using assms main_frame_state [OF assms]
  by (cases slot) (simp_all add: handoff_of_slot_def handoff_init_def drain_step_def key_unchanged)

end
