(* ===== verification/Snake_Spec.thy ===== *)
theory Snake_Spec
  imports Update
begin

text \<open>
  An abstract specification of one tick in the terms of \<^verbatim>\<open>spec.md\<close>
  (section 4.1): cells are pairs of unbounded integers, the snake is the list of
  its active segments, head first, the move is a step of \<open>BLOCK_SIZE\<close> without
  any wrap-around, and the respawned food is any cell on the board that the
  grown snake does not occupy.  \<open>spec_tick\<close> relates an abstract state to the
  outcome of a tick, one rule per outcome.  \<open>abs_state\<close> reads a concrete state
  as an abstract one; the refinement lemma says that whatever \<open>update\<close> returns
  from a state satisfying \<open>game_inv\<close> is an outcome \<open>spec_tick\<close> allows.
\<close>

type_synonym cell = "int \<times> int"

record abs_game =
  body :: "cell list"
  heading :: direction
  abs_food :: cell
  points :: nat

fun step_cell :: "cell \<Rightarrow> direction \<Rightarrow> cell" where
  "step_cell (r, c) Up = (r - int BLOCK_SIZE, c)"
| "step_cell (r, c) Down = (r + int BLOCK_SIZE, c)"
| "step_cell (r, c) Left = (r, c - int BLOCK_SIZE)"
| "step_cell (r, c) Right = (r, c + int BLOCK_SIZE)"

definition on_board :: "cell \<Rightarrow> bool" where
  "on_board p \<longleftrightarrow> 0 \<le> fst p \<and> fst p < int ROWS \<and> 0 \<le> snd p \<and> snd p < int COLS"

definition cell_of :: "pos \<Rightarrow> cell" where
  "cell_of p = (int (unat (fst p)), int (unat (snd p)))"

definition abs_state :: "game_state \<Rightarrow> abs_game" where
  "abs_state s =
     \<lparr>body = map cell_of (active_segments s), heading = direction s,
      abs_food = cell_of (food s), points = score s\<rparr>"

inductive spec_tick :: "abs_game \<Rightarrow> game_error + abs_game \<Rightarrow> bool" where
  wall: "\<not> on_board (step_cell (hd (body a)) (heading a)) \<Longrightarrow> spec_tick a (Inl WallCollision)"
| move: "h = step_cell (hd (body a)) (heading a) \<Longrightarrow> on_board h \<Longrightarrow> h \<noteq> abs_food a \<Longrightarrow>
     h \<notin> set (butlast (body a)) \<Longrightarrow> spec_tick a (Inr (a\<lparr>body := h # butlast (body a)\<rparr>))"
| bite: "h = step_cell (hd (body a)) (heading a) \<Longrightarrow> on_board h \<Longrightarrow> h \<noteq> abs_food a \<Longrightarrow>
     h \<in> set (butlast (body a)) \<Longrightarrow> spec_tick a (Inl SelfCollision)"
| grow: "h = step_cell (hd (body a)) (heading a) \<Longrightarrow> h = abs_food a \<Longrightarrow> h \<notin> set (body a) \<Longrightarrow>
     length (body a) < MAX_SNAKE_LENGTH \<Longrightarrow> on_board f \<Longrightarrow> f \<notin> set (h # body a) \<Longrightarrow>
     spec_tick a (Inr (a\<lparr>body := h # body a, abs_food := f, points := points a + 1\<rparr>))"
| overflow: "h = step_cell (hd (body a)) (heading a) \<Longrightarrow> h = abs_food a \<Longrightarrow>
     length (body a) = MAX_SNAKE_LENGTH \<Longrightarrow> spec_tick a (Inl IndexOutOfBounds)"

lemma cell_of_inj [simp]: "cell_of p = cell_of q \<longleftrightarrow> p = q"
  by (auto simp: cell_of_def prod_eq_iff word_unat_eq_iff simp del: of_nat_unat)

lemma cell_of_mem [simp]: "cell_of p \<in> cell_of ` A \<longleftrightarrow> p \<in> A"
  by (auto simp: image_iff)

lemma on_board_cell_of: "on_board (cell_of p) \<longleftrightarrow> in_grid p"
  by (simp add: on_board_def cell_of_def in_grid_unat grid_simps del: of_nat_unat)

text \<open>The wrapped 16-bit move read as integers: on the grid it is the plain
  integer step; off the grid it is a value no cell of the board has.\<close>

lemma move_head_cell:
  assumes "in_grid p"
  shows "(in_grid (move_head p d) \<longleftrightarrow> on_board (step_cell (cell_of p) d)) \<and>
         (in_grid (move_head p d) \<longrightarrow> cell_of (move_head p d) = step_cell (cell_of p) d)"
proof (cases p)
  case (Pair r c)
  have r: "unat r < 25" and c: "unat c < 80"
    using assms Pair by (simp_all add: in_grid_unat)
  then have r80: "unat r < 80" by simp
  show ?thesis
    using r c unat_minus_two [OF r80] unat_minus_two [OF c] unat_plus_two [OF r80]
      unat_plus_two [OF c] Pair
    by (cases d) (auto simp: in_grid_unat on_board_def cell_of_def grid_simps
                       simp del: of_nat_unat split: if_splits)
qed

lemma abs_state_shift:
  assumes "0 < length' s" and "length' s \<le> length (snake s)"
  shows "abs_state (s\<lparr>snake := h # butlast (snake s)\<rparr>) =
         (abs_state s)\<lparr>body := cell_of h # butlast (body (abs_state s))\<rparr>"
proof -
  obtain n where n: "length' s = Suc n"
    using assms(1) by (cases "length' s") auto
  with assms(2) have "take n (butlast (snake s)) = take n (snake s)"
    by (simp add: take_butlast)
  moreover have "butlast (take (Suc n) (snake s)) = take n (snake s)"
    using assms(2) n by (simp add: butlast_take)
  ultimately show ?thesis
    using n by (simp add: abs_state_def active_segments_def map_butlast [symmetric])
qed

lemma abs_state_grow:
  assumes "length' s < length (snake s)"
  shows "abs_state (s\<lparr>snake := h # butlast (snake s), score := score s + 1,
                     length' := length' s + 1, food := q\<rparr>) =
         (abs_state s)\<lparr>body := cell_of h # body (abs_state s), abs_food := cell_of q,
                        points := points (abs_state s) + 1\<rparr>"
proof -
  have "take (length' s) (butlast (snake s)) = take (length' s) (snake s)"
    using assms by (simp add: take_butlast)
  then show ?thesis
    by (simp add: abs_state_def active_segments_def)
qed

lemma abs_state_hd:
  assumes "game_inv s"
  shows "hd (body (abs_state s)) = cell_of (hd (snake s)) \<and> heading (abs_state s) = direction s"
proof -
  have "0 < length' s" "snake s \<noteq> []"
    using assms game_inv_hd [OF assms] by (simp_all add: game_inv_def)
  then show ?thesis
    by (simp add: abs_state_def active_segments_def hd_map)
qed

lemma abs_state_butlast:
  assumes "game_inv s"
  shows "butlast (body (abs_state s)) = map cell_of (take (length' s - 1) (snake s)) \<and>
         length (body (abs_state s)) = length' s"
proof -
  have "length' s \<le> length (snake s)"
    using assms by (simp add: game_inv_def wf_state_def)
  then show ?thesis
    by (simp add: abs_state_def active_segments_def map_butlast [symmetric] butlast_take)
qed

text \<open>Claim C22: for a head on the grid, the code's wrapping 16-bit
  move followed by the comparison against \<^verbatim>\<open>ROWS\<close> and \<^verbatim>\<open>COLS\<close> accepts
  exactly the moves whose integer step stays on the board, and then lands on the
  same cell: moving up from row 0 wraps to 65534, which the same test rejects.\<close>

theorem wrap_then_bound:
  assumes "in_grid p"
  shows "(in_grid (move_head p d) \<longleftrightarrow> on_board (step_cell (cell_of p) d)) \<and>
         (on_board (step_cell (cell_of p) d) \<longrightarrow> cell_of (move_head p d) = step_cell (cell_of p) d)"
  using move_head_cell [OF assms, of d] by blast

theorem wrap_then_bound_witness:
  "in_grid (0, 40) \<and> \<not> in_grid (move_head (0, 40) Up) \<and> \<not> on_board (step_cell (cell_of (0, 40)) Up) \<and>
   cell_of (move_head (0, 40) Up) = (65534, 40)"
proof -
  have g: "in_grid (0, 40)"
    by (simp add: in_grid_unat)
  have "\<not> in_grid (move_head (0, 40) Up)" "cell_of (move_head (0, 40) Up) = (65534, 40)"
    by (simp_all add: in_grid_unat grid_simps cell_of_def)
  then show ?thesis
    using g wrap_then_bound [OF g, of Up] by simp
qed

lemma update_refines_tick:
  assumes inv: "game_inv s" and upd: "update s = Some r"
  shows "spec_tick (abs_state s) (map_sum id abs_state r)"
proof -
  define h where "h = move_head (hd (snake s)) (direction s)"
  let ?a = "abs_state s"
  have ne: "snake s \<noteq> []" and hg: "in_grid (hd (snake s))"
    using game_inv_hd [OF inv] by (simp_all add: even_cell_def)
  have wf: "wf_state s" and len: "0 < length' s" "length' s \<le> MAX_SNAKE_LENGTH"
    and fd: "food s \<notin> set (snake s)" "in_grid (food s)"
    using inv by (simp_all add: game_inv_def)
  have ls: "length (snake s) = MAX_SNAKE_LENGTH"
    using wf by (simp add: wf_state_def)
  have hd_a: "step_cell (hd (body ?a)) (heading ?a) = step_cell (cell_of (hd (snake s))) (direction s)"
    using abs_state_hd [OF inv] by simp
  have mc: "in_grid h \<longleftrightarrow> on_board (step_cell (hd (body ?a)) (heading ?a))"
    "in_grid h \<Longrightarrow> cell_of h = step_cell (hd (body ?a)) (heading ?a)"
    using move_head_cell [OF hg, of "direction s"] hd_a by (simp_all add: h_def)
  show ?thesis
  proof (cases "in_grid h")
    case False
    then have "r = Inl WallCollision"
      using update_wall [OF ne] upd by (simp add: h_def)
    with False mc(1) show ?thesis
      by (simp add: spec_tick.wall)
  next
    case True
    note ch = mc(2) [OF True]
    have ob: "on_board (cell_of h)"
      using True by (simp add: on_board_cell_of)
    show ?thesis
    proof (cases "h = food s")
      case False
      have miss: "cell_of h \<noteq> abs_food ?a"
        using False by (simp add: abs_state_def)
      have memb: "cell_of h \<in> set (butlast (body ?a)) \<longleftrightarrow> h \<in> set (take (length' s - 1) (snake s))"
        using abs_state_butlast [OF inv] by simp
      have r: "r = (if h \<in> set (take (length' s - 1) (snake s)) then Inl SelfCollision
                   else Inr (s\<lparr>snake := h # butlast (snake s)\<rparr>))"
        using update_no_eat [OF wf len(2) h_def True False] upd by simp
      show ?thesis
      proof (cases "h \<in> set (take (length' s - 1) (snake s))")
        case True
        with r memb show ?thesis
          using spec_tick.bite [OF ch ob miss] by simp
      next
        case notin: False
        have "abs_state (s\<lparr>snake := h # butlast (snake s)\<rparr>) =
              ?a\<lparr>body := cell_of h # butlast (body ?a)\<rparr>"
          using abs_state_shift len ls by simp
        with r notin memb show ?thesis
          using spec_tick.move [OF ch ob miss] by simp
      qed
    next
      case hit: True
      obtain q where q: "q \<notin> set (h # butlast (snake s))" "in_grid q"
        and r0: "update s = Some (if length' s = MAX_SNAKE_LENGTH then Inl IndexOutOfBounds
                   else Inr (s\<lparr>snake := h # butlast (snake s), score := score s + 1,
                                length' := length' s + 1, food := q\<rparr>))"
        using update_eat_eq [OF inv h_def hit] by blast
      have fa: "cell_of h = abs_food ?a"
        using hit by (simp add: abs_state_def)
      have lb: "length (body ?a) = length' s"
        using abs_state_butlast [OF inv] by simp
      show ?thesis
      proof (cases "length' s = MAX_SNAKE_LENGTH")
        case True
        with r0 upd lb show ?thesis
          using spec_tick.overflow [OF ch fa] by simp
      next
        case False
        with len have lt: "length' s < length (snake s)"
          using ls by simp
        have tk: "set (take (length' s) (snake s)) \<subseteq> set (butlast (snake s))"
          using lt by (metis set_take_subset take_butlast)
        have hb: "cell_of h \<notin> set (body ?a)"
          using hit fd(1) in_set_takeD
          by (fastforce simp: abs_state_def active_segments_def)
        have qb: "cell_of q \<notin> set (cell_of h # body ?a)"
          using q(1) tk by (auto simp: abs_state_def active_segments_def)
        have "length (body ?a) < MAX_SNAKE_LENGTH"
          using lb False len by simp
        moreover have "abs_state (s\<lparr>snake := h # butlast (snake s), score := score s + 1,
                           length' := length' s + 1, food := q\<rparr>) =
              ?a\<lparr>body := cell_of h # body ?a, abs_food := cell_of q, points := points ?a + 1\<rparr>"
          using abs_state_grow [OF lt] .
        ultimately show ?thesis
          using r0 upd False spec_tick.grow [OF ch fa hb _ _ qb] q(2)
          by (simp add: on_board_cell_of)
      qed
    qed
  qed
qed

end
