(* ===== verification/Simulation.thy ===== *)
theory Simulation
  imports Session Snake_Spec
begin

text \<open>
  The refinement of \<open>Snake_Spec\<close> lifted from one tick to whole runs of the
  session, and the properties it carries over from the abstract game.
  \<open>spec_run\<close> executes a list of the session's events on the abstract game:
  \<^verbatim>\<open>update_direction\<close> sets the heading, a key press changes nothing (the
  spec's restart applies only after the game is over, and the code's
  \<^verbatim>\<open>key\<close> does nothing), and a tick is any outcome \<open>spec_tick\<close> allows; after
  an error no event is accepted.  \<open>abs_outcome\<close> reads a session as an
  abstract outcome; the probe that never returns has no abstract counterpart.
\<close>

fun abs_outcome :: "session \<Rightarrow> (game_error + abs_game) option" where
  "abs_outcome (Running s) = Some (Inr (abs_state s))"
| "abs_outcome (Over e) = Some (Inl e)"
| "abs_outcome Stuck = None"

inductive spec_run :: "game_error + abs_game \<Rightarrow> event list \<Rightarrow> game_error + abs_game \<Rightarrow> bool" where
  finish: "spec_run r [] r"
| turn: "spec_run (Inr (a\<lparr>heading := d\<rparr>)) evs r \<Longrightarrow> spec_run (Inr a) (SetDirection d # evs) r"
| press: "spec_run (Inr a) evs r \<Longrightarrow> spec_run (Inr a) (KeyPress k # evs) r"
| tick: "spec_tick a r1 \<Longrightarrow> spec_run r1 evs r \<Longrightarrow> spec_run (Inr a) (Tick # evs) r"

text \<open>The number of ticks in a list of events.\<close>

definition ticks :: "event list \<Rightarrow> nat" where
  "ticks evs = length (filter (\<lambda>ev. ev = Tick) evs)"

lemma game_inv_update_direction: "game_inv s \<Longrightarrow> game_inv (update_direction s d)"
  by (simp add: game_inv_def update_direction_def wf_state_def)

lemma abs_state_update_direction:
  "abs_state (update_direction s d) = (abs_state s)\<lparr>heading := d\<rparr>"
  by (simp add: abs_state_def update_direction_def active_segments_def)

lemma run_Over: "run (Over e) evs = Some t \<Longrightarrow> evs = [] \<and> t = Over e"
  by (cases evs) simp_all

lemma update_Inr_snake:
  assumes "snake s \<noteq> []" and "update s = Some (Inr s')"
  shows "snake s' = move_head (hd (snake s)) (direction s) # butlast (snake s)"
proof -
  define h where "h = move_head (hd (snake s)) (direction s)"
  have g: "in_grid h"
    using update_wall [OF assms(1)] assms(2) by (auto simp: h_def)
  note upd = update_in_grid [OF assms(1) h_def g]
  show ?thesis
  proof (cases "eat_food h (s\<lparr>snake := h # butlast (snake s)\<rparr>)")
    case None
    then show ?thesis
      using assms(2) upd by simp
  next
    case (Some s2)
    then have "s' = s2"
      using assms(2) upd by (simp split: if_splits)
    with Some show ?thesis
      by (auto simp: h_def dest: eat_food_frame)
  qed
qed

lemma spec_tick_distinct:
  "spec_tick a (Inr a') \<Longrightarrow> distinct (body a) \<Longrightarrow> distinct (body a')"
  by (auto elim: spec_tick.cases dest: in_set_butlastD simp: distinct_butlast)

lemma inj_cell_of: "inj cell_of"
  by (rule injI) simp

lemma distinct_body_iff: "distinct (body (abs_state s)) \<longleftrightarrow> distinct (active_segments s)"
  by (simp add: abs_state_def distinct_map inj_on_subset [OF inj_cell_of])

text \<open>Claim C4: every run of the session from a state satisfying the
  invariant is a run of the abstract game: for any list of direction changes,
  key presses and ticks that the code executes to the end, the abstract game
  can take the same events to the outcome the code reaches, read through
  \<open>abs_outcome\<close>.  In particular such a run never ends in a food probe that
  does not return.\<close>

theorem run_refines_spec:
  assumes "game_inv s" and "run (Running s) evs = Some t"
  shows "\<exists>r. abs_outcome t = Some r \<and> spec_run (Inr (abs_state s)) evs r"
  using assms
proof (induction evs arbitrary: s)
  case Nil
  then show ?case by (auto intro: spec_run.finish)
next
  case (Cons ev evs)
  show ?case
  proof (cases ev)
    case (SetDirection d)
    with Cons.IH [OF game_inv_update_direction [OF Cons.prems(1)]] Cons.prems(2) show ?thesis
      by (auto simp: abs_state_update_direction intro: spec_run.turn)
  next
    case (KeyPress k)
    with Cons show ?thesis
      by (auto simp: key_unchanged intro: spec_run.press)
  next
    case Tick
    obtain r where u: "update s = Some r"
      using update_returns [OF Cons.prems(1)] by auto
    note st = update_refines_tick [OF Cons.prems(1) u]
    show ?thesis
    proof (cases r)
      case (Inl e)
      then have "evs = [] \<and> t = Over e"
        using Cons.prems(2) Tick u run_Over by auto
      with st Inl Tick show ?thesis
        by (auto intro: spec_run.tick spec_run.finish)
    next
      case (Inr s')
      have "game_inv s'"
        using update_game_inv [OF Cons.prems(1)] u Inr by simp
      with Cons.IH Cons.prems(2) Tick u Inr obtain r' where
        "abs_outcome t = Some r'" "spec_run (Inr (abs_state s')) evs r'"
        by auto
      with st Inr Tick show ?thesis
        by (auto intro: spec_run.tick)
    qed
  qed
qed

theorem run_refines_spec_witness:
  "\<exists>r. abs_outcome (Running (start_state\<lparr>snake := (12, 42) # butlast (snake start_state)\<rparr>)) = Some r \<and>
       spec_run (Inr (abs_state start_state)) [KeyPress (Unicode CHR ''r''), Tick] r"
proof -
  have i: "game_inv start_state"
    using program_inv_start by (simp add: program_inv_def)
  have "update start_state = Some (Inr (start_state\<lparr>snake := (12, 42) # butlast (snake start_state)\<rparr>))"
    using update_no_eat [of start_state "(12, 42)"]
    by (simp add: wf_state_def grid_simps in_grid_unat snake_start_state)
  then have "run (Running start_state) [KeyPress (Unicode CHR ''r''), Tick] =
             Some (Running (start_state\<lparr>snake := (12, 42) # butlast (snake start_state)\<rparr>))"
    by (simp add: key_unchanged)
  from run_refines_spec [OF i this] show ?thesis .
qed

text \<open>Claim C17: a tick preserves a body of distinct cells: if the active
  segments are pairwise distinct before a tick that goes on, they are after it.
  The property is carried over from the abstract tick through the refinement.
  The initial kernel does not have it (its active segments repeat the stale
  \<open>(0, 0)\<close>), so the spec's distinct-body invariant holds only from a state
  that has it.\<close>

theorem update_keeps_body_distinct:
  assumes "game_inv s" and "distinct (active_segments s)" and "update s = Some (Inr s')"
  shows "distinct (active_segments s')"
proof -
  have "spec_tick (abs_state s) (Inr (abs_state s'))"
    using update_refines_tick [OF assms(1) assms(3)] by simp
  with assms(2) show ?thesis
    using spec_tick_distinct by (simp add: distinct_body_iff [symmetric])
qed

theorem update_keeps_body_distinct_witness:
  "distinct (active_segments
     ((new\<lparr>snake := (12, 40) # replicate 499 (0, 0), length' := 1, food := (1, 1)\<rparr>)
        \<lparr>snake := (12, 42) # butlast (snake (new\<lparr>snake := (12, 40) # replicate 499 (0, 0),
                                              length' := 1, food := (1, 1)\<rparr>))\<rparr>))"
proof -
  let ?s = "new\<lparr>snake := (12, 40) # replicate 499 (0::u16, 0::u16), length' := 1, food := (1, 1)\<rparr>"
  have i: "game_inv ?s"
    by (rule game_inv_single_head) (simp_all add: even_cell_12_40 in_grid_unat)
  have d: "distinct (active_segments ?s)"
    by (simp add: active_segments_def)
  have u: "update ?s = Some (Inr (?s\<lparr>snake := (12, 42) # butlast (snake ?s)\<rparr>))"
    using update_no_eat [of ?s "(12, 42)"] by (simp add: wf_state_def grid_simps in_grid_unat)
  show ?thesis
    using update_keeps_body_distinct [OF i d u] .
qed

lemma run_Stuck: "run Stuck evs = Some t \<Longrightarrow> evs = [] \<and> t = Stuck"
  by (cases evs) simp_all

lemma program_inv_update_direction: "program_inv s \<Longrightarrow> program_inv (update_direction s d)"
  by (simp add: program_inv_def game_inv_update_direction) (simp add: update_direction_def)

lemma program_tick_shift:
  assumes inv: "program_inv s" and upd: "update s = Some (Inr s')"
  shows "program_inv s' \<and> snake s' = move_head (hd (snake s)) (direction s) # butlast (snake s) \<and>
         move_head (hd (snake s)) (direction s) \<notin> set (take 9 (snake s))"
proof -
  define h where "h = move_head (hd (snake s)) (direction s)"
  have gi: "game_inv s" and fd: "food s = (1, 1)" and l: "length' s = 10"
    using inv by (simp_all add: program_inv_def)
  have ne: "snake s \<noteq> []" and ev: "even_cell (hd (snake s))"
    using game_inv_hd [OF gi] by simp_all
  have wf: "wf_state s" and len: "length' s \<le> MAX_SNAKE_LENGTH"
    using gi by (simp_all add: game_inv_def)
  have g: "in_grid h"
    using update_wall [OF ne] upd by (auto simp: h_def)
  have "h \<noteq> food s"
    using move_head_even [OF ev] g fd even_cell_not_food by (simp add: h_def)
  from update_no_eat [OF wf len h_def g this] upd l have "h \<notin> set (take 9 (snake s))"
    by (auto split: if_splits)
  moreover have "program_inv s'"
    using program_tick [OF inv] upd by auto
  ultimately show ?thesis
    using update_Inr_snake [OF ne upd] by (simp add: h_def)
qed

lemma distinct_take_shift:
  assumes "distinct (take m xs)" and "h \<notin> set (take m xs)" and "m < length xs"
  shows "distinct (take (Suc m) (h # butlast xs))"
  using assms by (simp add: take_butlast)

lemma distinct_take_mono: "distinct (take n xs) \<Longrightarrow> m \<le> n \<Longrightarrow> distinct (take m xs)"
  by (metis distinct_take min.absorb1 take_take)

lemma run_distinct_prefix:
  assumes "program_inv s" and "distinct (take (min 10 (Suc j)) (snake s))"
    and "run (Running s) evs = Some (Running s')"
  shows "program_inv s' \<and> distinct (take (min 10 (Suc (j + ticks evs))) (snake s'))"
  using assms
proof (induction evs arbitrary: s j)
  case Nil
  then show ?case by (simp add: ticks_def)
next
  case (Cons ev evs)
  show ?case
  proof (cases ev)
    case (SetDirection d)
    with Cons.IH [OF program_inv_update_direction [OF Cons.prems(1)]] Cons.prems(2,3) show ?thesis
      by (simp add: ticks_def update_direction_def)
  next
    case (KeyPress k)
    with Cons show ?thesis
      by (simp add: ticks_def key_unchanged)
  next
    case Tick
    have gi: "game_inv s"
      using Cons.prems(1) by (simp add: program_inv_def)
    obtain r where u: "update s = Some r"
      using update_returns [OF gi] by auto
    obtain s1 where r: "r = Inr s1"
      using Cons.prems(3) Tick u run_Over run_Stuck by (cases r) auto
    note sh = program_tick_shift [OF Cons.prems(1) u [unfolded r]]
    have ls: "length (snake s) = 500"
      using gi by (simp add: game_inv_def wf_state_def grid_simps)
    have "distinct (take (min 9 (Suc j)) (snake s))"
      using Cons.prems(2) by (rule distinct_take_mono) simp
    moreover have "move_head (hd (snake s)) (direction s) \<notin> set (take (min 9 (Suc j)) (snake s))"
      using sh in_set_takeD set_take_subset_set_take [of "min 9 (Suc j)" 9 "snake s"] by auto
    ultimately have "distinct (take (min 10 (Suc (Suc j))) (snake s1))"
      using distinct_take_shift [of "min 9 (Suc j)" "snake s"] sh ls by simp
    with Cons.IH [of s1 "Suc j"] sh Cons.prems(3) Tick u r show ?thesis
      by (simp add: ticks_def)
  qed
qed

text \<open>Claim C18: the spec's distinct-body invariant holds from the ninth tick
  on.  The initial kernel's active segments repeat the stale \<open>(0, 0)\<close>, but
  each tick that goes on puts a head that is none of the first nine segments in
  front, so after nine ticks the ten active segments are pairwise distinct, in
  every run of the program whatever the direction changes in between.\<close>

theorem body_distinct_after_nine_ticks:
  assumes "run start evs = Some (Running s)" and "9 \<le> ticks evs"
  shows "distinct (active_segments s)"
proof -
  have "distinct (take (min 10 (Suc 0)) (snake start_state))"
    by (simp add: snake_start_state)
  from run_distinct_prefix [OF program_inv_start this, of evs s] assms(1)
  have "program_inv s" "distinct (take (min 10 (Suc (ticks evs))) (snake s))"
    by (simp_all add: start_eq)
  with assms(2) show ?thesis
    by (simp add: active_segments_def program_inv_def min_def)
qed

theorem body_distinct_after_nine_ticks_witness:
  "distinct (active_segments (start_state\<lparr>snake :=
     [(12, 58), (12, 56), (12, 54), (12, 52), (12, 50), (12, 48), (12, 46), (12, 44), (12, 42), (12, 40)] @
     replicate 490 (0, 0)\<rparr>))"
proof -
  have "run start [Tick, Tick, Tick, Tick, Tick, Tick, Tick, Tick, Tick] =
        Some (Running (start_state\<lparr>snake :=
     [(12, 58), (12, 56), (12, 54), (12, 52), (12, 50), (12, 48), (12, 46), (12, 44), (12, 42), (12, 40)] @
     replicate 490 (0, 0)\<rparr>))"
    by (simp add: start_eq snake_start_state update_def advance_head_def grid_simps rotate_right1_def
                  eat_food_def Let_def self_check_eq butlast_replicate)
  moreover have "9 \<le> ticks [Tick, Tick, Tick, Tick, Tick, Tick, Tick, Tick, Tick]"
    by (simp add: ticks_def)
  ultimately show ?thesis
    by (rule body_distinct_after_nine_ticks)
qed

end
