(* ===== verification/Unsteered.thy ===== *)
theory Unsteered
  imports Simulation
begin

text \<open>
  What happens when the player never steers: a run of ticks only.  The
  direction is then fixed (\<^verbatim>\<open>update\<close> never changes it), and every tick that
  goes on moves the head one block further towards a wall.  \<open>room p d\<close> counts
  the blocks of \<open>BLOCK_SIZE\<close> cells left between \<open>p\<close> and the wall in direction
  \<open>d\<close>; it is at most 39 on the grid and drops with every move, so it is the
  variant of the tick loop.  The theorem is the liveness property of the game:
  without input the game ends, by a wall or a self collision, within 40 ticks.
\<close>

fun room :: "pos \<Rightarrow> direction \<Rightarrow> nat" where
  "room (r, c) Up = unat r div BLOCK_SIZE"
| "room (r, c) Down = (ROWS - 1 - unat r) div BLOCK_SIZE"
| "room (r, c) Left = unat c div BLOCK_SIZE"
| "room (r, c) Right = (COLS - 1 - unat c) div BLOCK_SIZE"

lemma room_bound: "in_grid p \<Longrightarrow> room p d \<le> 39"
  by (cases p; cases d) (auto simp: in_grid_unat grid_simps)

lemma room_move:
  assumes ev: "even_cell p" and g: "in_grid (move_head p d)"
  shows "room (move_head p d) d < room p d"
proof (cases p)
  case (Pair r c)
  have r: "unat r < 25" "even (unat r)" and c: "unat c < 80" "even (unat c)"
    using ev Pair by (simp_all add: even_cell_def in_grid_unat)
  then have r80: "unat r < 80" by simp
  show ?thesis
    using r c g Pair unat_minus_two [OF r80] unat_minus_two [OF c(1)] unat_plus_two [OF r80]
      unat_plus_two [OF c(1)]
    by (cases d) (auto simp: in_grid_unat grid_simps elim!: evenE split: if_splits)
qed

lemma update_room:
  assumes inv: "game_inv s" and upd: "update s = Some (Inr s')"
  shows "game_inv s' \<and> direction s' = direction s \<and>
         room (hd (snake s')) (direction s') < room (hd (snake s)) (direction s)"
proof -
  have ne: "snake s \<noteq> []" and ev: "even_cell (hd (snake s))"
    using game_inv_hd [OF inv] by simp_all
  have gi': "game_inv s'" and dir: "direction s' = direction s"
    using update_game_inv [OF inv upd] by simp_all
  have hd': "hd (snake s') = move_head (hd (snake s)) (direction s)"
    using update_Inr_snake [OF ne upd] by simp
  have "in_grid (hd (snake s'))"
    using game_inv_hd [OF gi'] by (simp add: even_cell_def)
  with ev hd' dir gi' show ?thesis
    using room_move by simp
qed

lemma unsteered_ends_within_room:
  assumes "game_inv s"
  shows "\<exists>k \<le> Suc (room (hd (snake s)) (direction s)).
           \<exists>e. run (Running s) (replicate k Tick) = Some (Over e)"
  using assms
proof (induction "room (hd (snake s)) (direction s)" arbitrary: s rule: less_induct)
  case less
  obtain r where u: "update s = Some r"
    using update_returns [OF less.prems] by auto
  show ?case
  proof (cases r)
    case (Inl e)
    then have "run (Running s) (replicate 1 Tick) = Some (Over e)"
      using u by simp
    then show ?thesis by fastforce
  next
    case (Inr s')
    note st = update_room [OF less.prems u [unfolded Inr]]
    then obtain k e where k: "k \<le> Suc (room (hd (snake s')) (direction s'))"
      and "run (Running s') (replicate k Tick) = Some (Over e)"
      using less.hyps [of s'] by blast
    then have "run (Running s) (replicate (Suc k) Tick) = Some (Over e)"
      using u Inr by simp
    moreover have "room (hd (snake s')) (direction s') < room (hd (snake s)) (direction s)"
      using st by (rule conjunct2 [THEN conjunct2])
    with k have "Suc k \<le> Suc (room (hd (snake s)) (direction s))"
      by linarith
    ultimately show ?thesis by blast
  qed
qed

text \<open>Claim C20: from any state satisfying the game invariant, a run of
  ticks without any direction change ends the game within 40 ticks: some
  \<open>k \<le> 40\<close> ticks lead to \<open>Over\<close>.  The wrapping move of the code cannot
  keep the head on the grid longer than the integer move would.\<close>

theorem unsteered_game_ends:
  assumes "game_inv s"
  shows "\<exists>k \<le> 40. \<exists>e. run (Running s) (replicate k Tick) = Some (Over e)"
proof -
  have "in_grid (hd (snake s))"
    using game_inv_hd [OF assms] by (simp add: even_cell_def)
  then have "Suc (room (hd (snake s)) (direction s)) \<le> 40"
    using room_bound [of "hd (snake s)" "direction s"] by simp
  with unsteered_ends_within_room [OF assms] show ?thesis
    by (meson order_trans)
qed

theorem unsteered_game_ends_witness:
  "\<exists>k \<le> 40. \<exists>e. run (Running start_state) (replicate k Tick) = Some (Over e)"
  using unsteered_game_ends program_inv_start by (simp add: program_inv_def)

end
