(* ===== verification/Steering.thy ===== *)
theory Steering
  imports Simulation
begin

text \<open>
  The game can be played forever: a player who steers the snake round a
  closed tour of ten cells never ends the game.  From the initial kernel every
  tick of the program depends only on the first ten segments (the head, the
  nine segments the self-collision loop reads, the length 10 that
  \<open>program_inv\<close> fixes) and the direction, so \<open>prefix_step\<close> runs the game on
  that prefix alone.  \<open>prefix_run_sound\<close> shows that a prefix run that does
  not stop is matched by a run of the session; the square tour is then
  evaluated on the ten-cell prefix only.  The tour re-enters the cell its tail
  left on the same tick, so it also shows that the self-collision loop does
  not read the vacated slot.
\<close>

text \<open>One event on the ten-cell prefix and the direction; \<open>None\<close> is a game
  that ends.\<close>

fun prefix_step :: "pos list \<times> direction \<Rightarrow> event \<Rightarrow> (pos list \<times> direction) option" where
  "prefix_step (P, d) (SetDirection d') = Some (P, d')"
| "prefix_step (P, d) (KeyPress k) = Some (P, d)"
| "prefix_step (P, d) Tick =
     (let h = move_head (hd P) d
      in if in_grid h \<and> h \<noteq> (1, 1) \<and> h \<notin> set (take 9 P) then Some (h # take 9 P, d) else None)"

fun prefix_run :: "pos list \<times> direction \<Rightarrow> event list \<Rightarrow> (pos list \<times> direction) option" where
  "prefix_run c [] = Some c"
| "prefix_run c (ev # evs) = (case prefix_step c ev of None \<Rightarrow> None | Some c' \<Rightarrow> prefix_run c' evs)"

text \<open>Three blocks right, two down, three left, two up: a closed tour of ten
  cells round the initial head \<open>(12, 40)\<close>.\<close>

definition square_tour :: "event list" where
  "square_tour =
     [Tick, Tick, Tick, SetDirection Down, Tick, Tick, SetDirection Left, Tick, Tick, Tick,
      SetDirection Up, Tick, Tick, SetDirection Right]"

definition tour_body :: "pos list" where
  "tour_body = [(12, 40), (14, 40), (16, 40), (16, 42), (16, 44), (16, 46), (14, 46), (12, 46),
                (12, 44), (12, 42)]"

lemma program_inv_length: "program_inv s \<Longrightarrow> length (snake s) = 500 \<and> length' s = 10"
  by (simp add: program_inv_def game_inv_def wf_state_def grid_simps)

lemma prefix_tick:
  assumes inv: "program_inv s" and P: "take 10 (snake s) = P"
    and st: "prefix_step (P, direction s) Tick = Some (P', d')"
  shows "\<exists>s'. session_next (Running s) Tick = Some (Running s') \<and> program_inv s' \<and>
              take 10 (snake s') = P' \<and> direction s' = d'"
proof -
  define h where "h = move_head (hd (snake s)) (direction s)"
  have l: "length (snake s) = 500" "length' s = 10"
    using program_inv_length [OF inv] by simp_all
  then have hdP: "hd P = hd (snake s)" and t9: "take 9 P = take 9 (snake s)"
    using P by (auto simp: hd_take)
  have c: "in_grid h" "h \<noteq> (1, 1)" "h \<notin> set (take 9 (snake s))"
    and P': "P' = h # take 9 (snake s)" "d' = direction s"
    using st hdP t9 by (auto simp: h_def Let_def split: if_splits)
  have "wf_state s" "length' s \<le> MAX_SNAKE_LENGTH" "food s = (1, 1)"
    using inv by (simp_all add: program_inv_def game_inv_def)
  then have u: "update s = Some (Inr (s\<lparr>snake := h # butlast (snake s)\<rparr>))"
    using update_no_eat [OF _ _ h_def c(1)] c l by simp
  have "program_inv (s\<lparr>snake := h # butlast (snake s)\<rparr>)"
    using program_tick_shift [OF inv u] by (simp add: h_def)
  moreover have "take 10 (h # butlast (snake s)) = P'"
    using l P' by (simp add: take_butlast)
  ultimately show ?thesis
    using u P' by simp
qed

lemma prefix_run_sound:
  assumes "program_inv s" and "take 10 (snake s) = P"
    and "prefix_run (P, direction s) evs = Some (P', d')"
  shows "\<exists>s'. run (Running s) evs = Some (Running s') \<and> program_inv s' \<and>
              take 10 (snake s') = P' \<and> direction s' = d'"
  using assms
proof (induction evs arbitrary: s P)
  case Nil
  then show ?case by simp
next
  case (Cons ev evs)
  show ?case
  proof (cases ev)
    case (SetDirection d)
    with Cons.IH [OF program_inv_update_direction [OF Cons.prems(1)]] Cons.prems(2,3) show ?thesis
      by (simp add: update_direction_def)
  next
    case (KeyPress k)
    with Cons show ?thesis
      by (simp add: key_unchanged)
  next
    case Tick
    obtain c where c: "prefix_step (P, direction s) Tick = Some c" "prefix_run c evs = Some (P', d')"
      using Cons.prems(3) Tick by (auto split: option.splits)
    obtain s1 where "session_next (Running s) Tick = Some (Running s1)" "program_inv s1"
      "take 10 (snake s1) = fst c" "direction s1 = snd c"
      using prefix_tick [OF Cons.prems(1,2), of "fst c" "snd c"] c(1) by auto
    with Cons.IH [of s1 "fst c"] c(2) Tick show ?thesis
      by simp
  qed
qed

lemma prefix_run_append:
  "prefix_run c (xs @ ys) = (case prefix_run c xs of None \<Rightarrow> None | Some c' \<Rightarrow> prefix_run c' ys)"
  by (induction c xs rule: prefix_run.induct) (auto split: option.split)

lemma square_tour_closes: "prefix_run (tour_body, Right) square_tour = Some (tour_body, Right)"
  by (simp add: square_tour_def tour_body_def in_grid_unat grid_simps)

lemma square_tour_first:
  "prefix_run (take 10 (snake start_state), Right) square_tour = Some (tour_body, Right)"
  by (simp add: square_tour_def tour_body_def snake_start_state in_grid_unat grid_simps)

lemma square_tours_close:
  "prefix_run (tour_body, Right) (concat (replicate n square_tour)) = Some (tour_body, Right)"
  by (induction n) (simp_all add: prefix_run_append square_tour_closes)

text \<open>Claim C21: the game of the program can go on forever: for every
  \<open>n\<close>, steering the snake \<open>n\<close> times round the square tour from the start
  of \<^verbatim>\<open>main\<close> keeps the session running.  No collision check fires
  spuriously, including when the head enters the cell the tail leaves.\<close>

theorem steered_game_never_ends:
  "\<exists>s. run start (concat (replicate n square_tour)) = Some (Running s)"
proof (cases n)
  case 0
  then show ?thesis by (simp add: start_eq)
next
  case (Suc m)
  have "prefix_run (take 10 (snake start_state), direction start_state)
          (concat (replicate n square_tour)) = Some (tour_body, Right)"
    using Suc by (simp add: prefix_run_append square_tour_first square_tours_close)
  from prefix_run_sound [OF program_inv_start refl this] show ?thesis
    by (auto simp: start_eq)
qed

end
