(* ===== verification/Spec2Isabelle.thy ===== *)
theory Spec2Isabelle
  imports Kernel Unsteered Steering
begin

text \<open>
  \<^bold>\<open>A verification development for \<^verbatim>\<open>snake_game_rust\<close>.\<close>

  \<^medskip>
  \<^bold>\<open>The program.\<close>  \<^verbatim>\<open>src/src/lib.rs\<close> holds the game engine: the grid
  constants (\<^verbatim>\<open>ROWS = 25\<close>, \<^verbatim>\<open>COLS = 80\<close>, \<^verbatim>\<open>BLOCK_SIZE = 2\<close>,
  \<^verbatim>\<open>MAX_SNAKE_LENGTH = 500\<close>), the \<^verbatim>\<open>Direction\<close> enum, and the
  \<^verbatim>\<open>GameState\<close> struct (a fixed array of 500 \<^verbatim>\<open>(u16, u16)\<close> cells, the
  active length, direction, food cell and score) with \<^verbatim>\<open>new\<close>,
  \<^verbatim>\<open>update_direction\<close>, \<^verbatim>\<open>update\<close> (one tick), \<^verbatim>\<open>is_snake_on_position\<close>,
  \<^verbatim>\<open>spawn_food\<close>, \<^verbatim>\<open>draw_snake\<close> and \<^verbatim>\<open>key\<close>.  \<^verbatim>\<open>src/src/main.rs\<close> is
  the freestanding entry point: it builds the kernel with \<^verbatim>\<open>new()\<close> and one
  \<^verbatim>\<open>spawn_food()\<close>, zeroes a byte buffer over video memory and loops forever,
  handing a pending key to \<^verbatim>\<open>key\<close> and drawing the food and the snake.

  \<^medskip>
  \<^bold>\<open>The theories, in import order.\<close>
  \<^item> \<open>Snake_Prelude\<close>: the grid constants (\<open>ROWS\<close>, \<open>COLS\<close>, \<open>BLOCK_SIZE\<close>,
    \<open>MAX_SNAKE_LENGTH\<close>), coordinates as \<open>16 word\<close> (\<open>u16\<close>, \<open>pos\<close>), Rust's
    \<^verbatim>\<open>rotate_right(1)\<close> as \<open>rotate_right1\<close>, the wall test \<open>in_grid\<close> of
    line 102, \<open>even_cell\<close>, and the shared lemma collections \<open>grid_simps\<close>
    (the constants) and \<open>u16_simps\<close> (\<open>unat\<close> of small sums and differences,
    and of a difference that wraps).
  \<^item> \<open>Direction\<close>: the enum and \<open>opposite\<close> (lines 37--55).
  \<^item> \<open>Game_State\<close>: the struct as the record \<open>game_state\<close> (the field
    \<^verbatim>\<open>length\<close> is \<open>length'\<close>, \<^verbatim>\<open>usize\<close> counters are \<open>nat\<close>, the array is a
    list whose 500 slots \<open>wf_state\<close> records), \<open>new\<close>, \<open>update_direction\<close>,
    the scan \<open>is_snake_on_position\<close> (over all 500 slots, as the code does) and
    \<open>key\<close>, whose match arms are empty.  \<^verbatim>\<open>DecodedKey\<close> is reduced to the
    cases \<open>key\<close> distinguishes.
  \<^item> \<open>Spawn_Food\<close>: \<^verbatim>\<open>spawn_food\<close> (lines 137--150).  Its \<^verbatim>\<open>while\<close> loop is
    \<open>spawn_loop\<close>, a \<^theory_text>\<open>partial_function (option)\<close>; \<open>None\<close> is a loop that
    never ends.  \<open>probe_search\<close> is the same search with a probe budget, and
    the probe sequence \<open>probe\<close> repeats after \<open>lcm 25 80 = 400\<close> steps, so
    400 probes decide the loop.
  \<^item> \<open>Update\<close>: \<^verbatim>\<open>update\<close> (lines 88--119) as \<open>advance_head\<close> (move with
    \<^verbatim>\<open>wrapping_sub\<close>/\<^verbatim>\<open>wrapping_add\<close> on \<open>u16\<close>, rotate, write the head),
    \<open>eat_food\<close> and the loop \<open>self_check\<close>.  Its result is
    \<open>(game_error + game_state) option\<close>: \<open>Inl WallCollision\<close> and
    \<open>Inl SelfCollision\<close> are the two \<^verbatim>\<open>panic!\<close> sites, \<open>Inl IndexOutOfBounds\<close>
    is the array index \<^verbatim>\<open>self.snake[i]\<close> past slot 499, and \<open>None\<close> is a
    probe loop that never ends.  \<open>game_inv\<close> is the invariant: 500 slots, every
    slot an even cell of the grid, the food on the grid and in no slot, the
    length between 1 and 500.
  \<^item> \<open>Session\<close>: the kernel's life as an inductive step relation
    \<open>session_step\<close> over \<open>Running\<close>, \<open>Over\<close> (after a panic, which halts the
    kernel) and \<open>Stuck\<close> (a probe loop that never ends), with events for
    \<^verbatim>\<open>update_direction\<close>, \<^verbatim>\<open>key\<close> and \<^verbatim>\<open>update\<close> in any order; \<open>start\<close> is
    \<^verbatim>\<open>new()\<close> followed by \<^verbatim>\<open>spawn_food()\<close> as \<^verbatim>\<open>main\<close> does it.
    \<open>reachable\<close> is the closure; \<open>session_inv\<close> is proved by rule induction.
  \<^item> \<open>Render\<close>: \<^verbatim>\<open>draw_snake\<close> as the list of \<^verbatim>\<open>plot\<close> calls, the byte
    buffer of \<^verbatim>\<open>main\<close> as a list of \<open>8 word\<close> with Rust's slice range check on
    every \<^verbatim>\<open>copy_from_slice\<close>, the food drawing, the effect of every
    \<^verbatim>\<open>plot\<close> call on the same memory (\<open>plot_write\<close>: the buffer starts at
    \<^verbatim>\<open>0xb8000\<close>, where the VGA text buffer is), one iteration of the main
    loop (\<open>main_frame\<close>) and \<open>n\<close> of them (\<open>main_loop\<close>, by recursion on
    \<open>n\<close>, since the loop itself never ends).
  \<^item> \<open>Snake_Spec\<close>: the abstract tick of \<^verbatim>\<open>spec.md\<close> section 4.1 over integer
    cells (\<open>spec_tick\<close>, with nondeterministic fresh food), the abstraction
    \<open>abs_state\<close> to the active body, and the one-tick refinement lemma
    \<open>update_refines_tick\<close>.
  \<^item> \<open>Key_Handoff\<close>: the slot \<^verbatim>\<open>LAST_KEY\<close> (\<^verbatim>\<open>main.rs\<close> line 13) and the
    main loop's drain of it (lines 27--30) as two atomic steps
    (\<open>drain_step\<close>), interleaved with an interrupt writer (\<open>irq_store\<close>, the
    handler of spec section 5, which the program does not install); schedules
    are lists of actors run by \<open>handoff_run\<close>, with ghost histories of the keys
    written and of the keys handed to \<^verbatim>\<open>key\<close>.
  \<^item> \<open>Kernel\<close>: all of \<^verbatim>\<open>_start\<close> (lines 12--49) as \<open>kernel_start\<close>, which
    composes \<open>new\<close>, \<open>spawn_food\<close>, \<open>clear_buffer\<close> and \<open>main_loop\<close>;
    the screen image every frame leaves (\<open>frame_screen\<close>);
    \<open>vga_text_offset\<close> for the 2-byte cells of the text buffer at
    \<^verbatim>\<open>0xb8000\<close>; and the agreement of \<open>main_frame\<close> with two uninterrupted
    \<open>drain_step\<close>s.
  \<^item> \<open>Simulation\<close>: \<open>spec_run\<close>, the abstract game run over the session's
    events, and the refinement of \<open>run\<close> by it; the properties carried over
    from the abstract tick.
  \<^item> \<open>Unsteered\<close>: runs of ticks without input, with the wall distance
    \<open>room\<close> as the variant.
  \<^item> \<open>Steering\<close>: the game on the ten-cell prefix that decides every tick
    (\<open>prefix_step\<close>, \<open>prefix_run\<close>), shown sound for the session, and a closed
    square tour evaluated on it.
  \<^item> \<open>Spec2Isabelle\<close> (this theory): the spec's promises for reachable
    states.

  \<^medskip>
  \<^bold>\<open>What is proved.\<close>
  \<^item> Ticks: from \<open>game_inv\<close> a tick always returns and keeps the invariant;
    each branch of \<^verbatim>\<open>update\<close> in closed form (move, eat, wall, self
    collision, eating at capacity, which indexes slot 500 and panics); the
    wrapping move equals the integer move exactly when the wall test passes;
    a tick keeps a body of distinct cells distinct, and every run of the
    program has a distinct body from its ninth tick on, although the initial
    kernel repeats the stale \<open>(0, 0)\<close>.
  \<^item> Refinement: every run of the session from \<open>game_inv\<close>, over any events,
    is a run of the abstract game to the abstracted outcome (induction on the
    events over the one-tick refinement), and never ends in a stuck probe.
  \<^item> Score: a tick that goes on either keeps score and length or raises both
    by exactly one.
  \<^item> Food: when \<^verbatim>\<open>spawn_food\<close> returns, the cell is on the grid, free, and
    the first free cell of its diagonal probe sequence; it returns within two
    probes whenever every slot has an even column; it diverges exactly when
    all 400 diagonal cells are occupied.
  \<^item> The program: every reachable running state satisfies \<open>game_inv\<close>; no
    reachable session is stuck or ends with the index panic; the food stays
    at \<open>(1, 1)\<close> with score 0 and length 10 forever, because the head only
    visits even cells; the main loop as written never changes the kernel
    state and, from a state satisfying \<open>game_inv\<close>, never panics; the food
    drawing overruns its buffer for food in row 24 at column
    60 or beyond; a reversal into the neck ends the game; the occupancy scan
    counts stale slots.
  \<^item> \<^verbatim>\<open>_start\<close>: from any screen contents it never panics, keeps the
    initial kernel, and after every frame leaves the same screen: the food
    block of \<open>(1, 1)\<close> and the snake's \<^verbatim>\<open>'*'\<close> that \<^verbatim>\<open>plot\<close> writes into
    the same memory at text cells \<open>(12, 40)\<close> and \<open>(0, 0)\<close>.  The food
    blocks of cells 20 columns apart
    overlap, and the food lands at eight times the offset of its text cell,
    off the cell the snake would be plotted at.
  \<^item> Key hand-off: with a writer that stores only into an empty slot every key
    is handed to \<^verbatim>\<open>key\<close> once and in order, under every interleaving; a key
    stored between the loop's \<^verbatim>\<open>load\<close> and its \<^verbatim>\<open>store(None)\<close> is erased
    and never delivered.
  \<^item> Liveness: without steering the game ends within 40 ticks from any state
    satisfying \<open>game_inv\<close>; with steering round a closed ten-cell tour it
    never ends, for any number of rounds.

  \<^medskip>
  \<^bold>\<open>Bounds and fuel.\<close>  No fuel is used for the probe loop: it is a
  \<^theory_text>\<open>partial_function (option)\<close>, and its termination is proved
  from the even-column invariant, which \<open>game_inv\<close> implies.  The reference search's budget of 400 probes is the
  period of the probe sequence (\<open>probe_mod_400\<close>), so it is exact.
  \<open>main_loop\<close> counts iterations because the source loop never exits.
  Coordinates are 16-bit words throughout; the \<^verbatim>\<open>u16\<close> additions of
  \<^verbatim>\<open>spawn_food\<close> are modelled wrapping and never reach 65535 in reachable
  states.  \<^verbatim>\<open>usize\<close> counters are \<open>nat\<close>: the score and length stay below
  501.

  \<^medskip>
  \<^bold>\<open>Not modelled.\<close>  The library primitive \<^verbatim>\<open>plot\<close> is modelled only by
  its effect on the text buffer (character and colour byte of the cell, a panic
  off the 80 by 25 screen), taken from the layout of
  \<^verbatim>\<open>pluggable_interrupt_os\<close>; \<^verbatim>\<open>clear_screen\<close> is not modelled.  The raw
  pointer cast to \<^verbatim>\<open>0xb8000\<close> is a list of \<open>SCREEN_SIZE\<close> bytes that
  \<^verbatim>\<open>plot\<close> writes into as well; the internals
  of \<^verbatim>\<open>AtomicCell\<close> (each \<^verbatim>\<open>load\<close> and \<^verbatim>\<open>store\<close> is one atomic step), the
  interrupt \<^verbatim>\<open>HandlerTable\<close> (imported but never used; the writer of
  \<open>Key_Handoff\<close> stands for the handler the spec describes), \<^verbatim>\<open>startup\<close>
  (never called) and the commented-out \<^verbatim>\<open>render_buffer\<close>.  The debug-mode
  overflow panics of \<^verbatim>\<open>score += 1\<close> and \<^verbatim>\<open>length += 1\<close> are not modelled,
  as the counters stay far below their limits.

  \<^medskip>
  \<^bold>\<open>Further work.\<close>  Every operation of \<^verbatim>\<open>lib.rs\<close> and every statement
  of \<^verbatim>\<open>_start\<close> that changes state is a definition of the development; what
  is left are the library primitives and dead code listed above.  The spec's
  restart on \<^verbatim>\<open>R\<close> has no code to model: both arms of the \<^verbatim>\<open>match\<close> in
  \<^verbatim>\<open>key\<close> are empty and a collision panics, so \<open>Over\<close> is terminal in
  \<open>session_step\<close>; this is recorded as a finding rather than modelled.
\<close>

text \<open>Claim C3: read through the abstraction of
  \<open>Snake_Spec\<close>, every running state the program reaches keeps the promises of
  \<^verbatim>\<open>spec.md\<close> section 8: the length is positive and at most the capacity,
  every active segment and the food lie on the board, and the food is not on
  the snake.\<close>

theorem reachable_meets_spec:
  assumes "reachable (Running s)"
  shows "0 < length (body (abs_state s)) \<and> length (body (abs_state s)) \<le> MAX_SNAKE_LENGTH \<and>
         (\<forall>c\<in>set (body (abs_state s)). on_board c) \<and> on_board (abs_food (abs_state s)) \<and>
         abs_food (abs_state s) \<notin> set (body (abs_state s))"
proof -
  have gi: "game_inv s"
    using reachable_session_inv [OF assms] by (simp add: program_inv_def)
  have len: "length (body (abs_state s)) = length' s"
    using abs_state_butlast [OF gi] by simp
  have cells: "\<forall>p\<in>set (take (length' s) (snake s)). in_grid p"
    using gi in_set_takeD by (fastforce simp: game_inv_def even_cell_def)
  have "food s \<notin> set (take (length' s) (snake s))"
    using gi in_set_takeD by (fastforce simp: game_inv_def)
  with gi len cells show ?thesis
    by (auto simp: game_inv_def abs_state_def active_segments_def on_board_cell_of)
qed

theorem reachable_meets_spec_witness:
  "length (body (abs_state start_state)) = 10 \<and>
   abs_food (abs_state start_state) \<notin> set (body (abs_state start_state))"
  using reachable_meets_spec [OF reachable_start_state] program_inv_start
  by (simp add: program_inv_def abs_state_def active_segments_def snake_start_state)

end
